theory Spec2Isabelle
  imports Main "HOL-Library.AList"
begin

section \<open>Strings of the host language\<close>

text \<open>
  Theme names, collection names and paths are JavaScript strings. They are modelled as
  \<^typ>\<open>string\<close>, each \<^typ>\<open>char\<close> read as the code unit of the same number
  (U+0000 to U+00FF). On that range the white space of \<^verbatim>\<open>String.prototype.trim\<close>
  and of the regular expression class \<^verbatim>\<open>\s\<close> is the same set: TAB, LF, VT, FF, CR,
  SPACE and NO-BREAK SPACE. A word character of \<^verbatim>\<open>\b\<close> is one of
  \<^verbatim>\<open>[A-Za-z0-9_]\<close>. \<^verbatim>\<open>toLowerCase\<close> maps A-Z and the Latin-1 capitals
  (U+00C0 to U+00DE, without the multiplication sign U+00D7) 32 code units up.
\<close>

definition is_space :: "char \<Rightarrow> bool" where
  "is_space c = (c \<in> set [CHR 0x09, CHR 0x0A, CHR 0x0B, CHR 0x0C, CHR 0x0D, CHR 0x20, CHR 0xA0])"

definition is_word_char :: "char \<Rightarrow> bool" where
  "is_word_char c =
     (let n = (of_char c :: nat)
      in (48 \<le> n \<and> n \<le> 57) \<or> (65 \<le> n \<and> n \<le> 90) \<or> n = 95 \<or> (97 \<le> n \<and> n \<le> 122))"

definition toLowerCase_char :: "char \<Rightarrow> char" where
  "toLowerCase_char c =
     (let n = (of_char c :: nat)
      in if (65 \<le> n \<and> n \<le> 90) \<or> (192 \<le> n \<and> n \<le> 222 \<and> n \<noteq> 215)
         then char_of (n + 32) else c)"

definition toLowerCase :: "string \<Rightarrow> string" where
  "toLowerCase s = map toLowerCase_char s"

definition trim :: "string \<Rightarrow> string" where
  "trim s = rev (dropWhile is_space (rev (dropWhile is_space s)))"

text \<open>
  \<^verbatim>\<open>s.split(/\s+/)\<close>: the pieces of \<open>s\<close> between the maximal runs of white space. A
  run at the start gives an empty first piece, a run at the end an empty last piece, and
  the empty string gives one empty piece. \<open>cur\<close> is the piece being read.
\<close>

function split_ws_from :: "string \<Rightarrow> string \<Rightarrow> string list" where
  "split_ws_from cur [] = [cur]"
| "split_ws_from cur (c # cs) =
     (if is_space c then cur # split_ws_from [] (dropWhile is_space cs)
      else split_ws_from (cur @ [c]) cs)"
  by pat_completeness auto
termination
  by (relation "measure (\<lambda>(cur, s). length s)")
     (auto simp: length_dropWhile_le less_Suc_eq_le)

definition split_ws :: "string \<Rightarrow> string list" where
  "split_ws s = split_ws_from [] s"

subsection \<open>The regular expressions of the theme grouper\<close>

text \<open>
  The patterns \<^verbatim>\<open>/\blight\b$/\<close> and \<^verbatim>\<open>/\bdark\b$/\<close> are sequences of three kinds
  of atoms: the word boundary assertion, a literal, and the end anchor (no \<^verbatim>\<open>m\<close> flag:
  the end of the input). \<open>match_here\<close> matches a sequence at one position of the input;
  \<^verbatim>\<open>RegExp.prototype.test\<close> tries every start position from 0 to the length. The
  boundary assertion holds where exactly one of the code units before and after the
  position is a word character, a position outside the input counting as none.
\<close>

datatype atom = WordB | Lit string | EndA

fun match_here :: "atom list \<Rightarrow> string \<Rightarrow> nat \<Rightarrow> bool" where
  "match_here [] s i = True"
| "match_here (WordB # as) s i =
     (((0 < i \<and> is_word_char (s ! (i - 1))) \<noteq> (i < length s \<and> is_word_char (s ! i)))
      \<and> match_here as s i)"
| "match_here (Lit w # as) s i =
     (i + length w \<le> length s \<and> take (length w) (drop i s) = w
      \<and> match_here as s (i + length w))"
| "match_here (EndA # as) s i = (i = length s \<and> match_here as s i)"

definition regex_test :: "atom list \<Rightarrow> string \<Rightarrow> bool" where
  "regex_test re s = list_ex (match_here re s) [0..<Suc (length s)]"

section \<open>The theme grouper\<close>

text \<open>
  The source holds two versions of the grouper and of the exporter's entry module. The
  definitions follow the current one, the first of each file: the grouper that classifies
  with \<^verbatim>\<open>getThemeVariant\<close> and skips a theme without a variant, and the entry point that
  awaits the theme groups one after the other.
\<close>

record TokenTheme =
  theme_id :: string
  idInVersion :: string
  theme_name :: string

datatype ThemeVariant = Light | Dark

text \<open>The variant as the string the source holds (\<^verbatim>\<open>"light" | "dark"\<close>).\<close>

fun variant_string :: "ThemeVariant \<Rightarrow> string" where
  "variant_string Light = ''light''"
| "variant_string Dark = ''dark''"

record XcodeTheme =
  name :: string
  lightTheme :: "TokenTheme option"
  darkTheme :: "TokenTheme option"

record ThemeVariantMap =
  light :: "TokenTheme option"
  dark :: "TokenTheme option"

definition getThemeVariant :: "string \<Rightarrow> ThemeVariant option" where
  "getThemeVariant nm =
     (let normalized = toLowerCase (trim nm)
      in if regex_test [WordB, Lit ''light'', WordB, EndA] normalized then Some Light
         else if regex_test [WordB, Lit ''dark'', WordB, EndA] normalized then Some Dark
         else None)"

text \<open>
  \<open>deriveBaseThemeName\<close> ignores its second argument, as the source does. The source's
  \<^verbatim>\<open>base ?? trimmed\<close> covers a split with no piece.
\<close>

definition deriveBaseThemeName :: "string \<Rightarrow> ThemeVariant option \<Rightarrow> string" where
  "deriveBaseThemeName nm variant =
     (let trimmed = trim nm
      in if trimmed = [] then trimmed
         else (case split_ws trimmed of [] \<Rightarrow> trimmed | base # _ \<Rightarrow> base))"

definition createThemeGroup :: "string \<Rightarrow> ThemeVariantMap \<Rightarrow> XcodeTheme" where
  "createThemeGroup nm variants =
     \<lparr>name = nm, lightTheme = light variants, darkTheme = dark variants\<rparr>"

text \<open>Reading and writing \<^verbatim>\<open>entry[variant]\<close>.\<close>

fun entry_get :: "ThemeVariantMap \<Rightarrow> ThemeVariant \<Rightarrow> TokenTheme option" where
  "entry_get e Light = light e"
| "entry_get e Dark = dark e"

fun entry_set :: "ThemeVariantMap \<Rightarrow> ThemeVariant \<Rightarrow> TokenTheme \<Rightarrow> ThemeVariantMap" where
  "entry_set e Light t = e\<lparr>light := Some t\<rparr>"
| "entry_set e Dark t = e\<lparr>dark := Some t\<rparr>"

definition skip_message :: "string \<Rightarrow> string" where
  "skip_message nm =
     ''Skipping theme '' @ [CHR 0x27] @ nm @ [CHR 0x27]
       @ '' because no light/dark suffix was detected.''"

definition duplicate_message :: "ThemeVariant \<Rightarrow> string \<Rightarrow> string" where
  "duplicate_message variant base =
     ''Duplicate '' @ variant_string variant @ '' theme found for base '' @ [CHR 0x27] @ base
       @ [CHR 0x27] @ ''. Replacing existing theme.''"

text \<open>
  The \<^verbatim>\<open>Map\<close> of the source keeps its keys in the order of their first insertion, and
  setting a key that is present keeps its place: an association list under
  \<^const>\<open>AList.update\<close>. The state of the loop is the map and the lines given to the
  logger so far, in order.
\<close>

type_synonym groups = "(string \<times> ThemeVariantMap) list"

definition groupThemes_step :: "groups \<times> string list \<Rightarrow> TokenTheme \<Rightarrow> groups \<times> string list" where
  "groupThemes_step st t =
     (case getThemeVariant (theme_name t) of
        None \<Rightarrow> (fst st, snd st @ [skip_message (theme_name t)])
      | Some variant \<Rightarrow>
          (let base = deriveBaseThemeName (theme_name t) (Some variant);
               entry = (case map_of (fst st) base of
                          None \<Rightarrow> \<lparr>light = None, dark = None\<rparr> | Some e \<Rightarrow> e);
               lg = (if entry_get entry variant \<noteq> None
                     then snd st @ [duplicate_message variant base] else snd st)
           in (AList.update base (entry_set entry variant t) (fst st), lg)))"

fun groupThemes_loop :: "TokenTheme list \<Rightarrow> groups \<times> string list \<Rightarrow> groups \<times> string list" where
  "groupThemes_loop [] st = st"
| "groupThemes_loop (t # ts) st = groupThemes_loop ts (groupThemes_step st t)"

definition collect_groups :: "groups \<Rightarrow> XcodeTheme list" where
  "collect_groups gs =
     map (\<lambda>(base, pair). createThemeGroup base pair)
       (filter (\<lambda>(base, pair). light pair \<noteq> None \<or> dark pair \<noteq> None) gs)"

text \<open>The groups returned and the lines logged by one call of \<open>groupThemes\<close>.\<close>

definition groupThemes_run :: "TokenTheme list \<Rightarrow> XcodeTheme list \<times> string list" where
  "groupThemes_run themes =
     (if themes = [] then ([], [])
      else (let st = groupThemes_loop themes ([], [])
            in (collect_groups (fst st), snd st)))"

definition groupThemes :: "TokenTheme list \<Rightarrow> XcodeTheme list" where
  "groupThemes themes = fst (groupThemes_run themes)"

definition groupThemes_log :: "TokenTheme list \<Rightarrow> string list" where
  "groupThemes_log themes = snd (groupThemes_run themes)"

section \<open>The export orchestrator\<close>

subsection \<open>Data of the host platform\<close>

text \<open>
  The records hold the fields the exporter reads. \<^verbatim>\<open>collectionId\<close> may be absent. A
  token's resolved value is kept as a string. \<open>Color\<close> is \<^verbatim>\<open>TokenType.color\<close>.
\<close>

datatype TokenType = Color | OtherTokenType string

record Token =
  token_id :: string
  tokenType :: TokenType
  collectionId :: "string option"
  token_value :: string

record TokenGroup =
  group_name :: string

record TokenCollection =
  persistentId :: string
  collection_name :: string

text \<open>
  An output file as \<^verbatim>\<open>FileHelper.createTextFile\<close> builds it from \<^verbatim>\<open>relativePath\<close>,
  \<^verbatim>\<open>fileName\<close> and \<^verbatim>\<open>content\<close>.
\<close>

record OutputTextFile =
  path :: string
  file_name :: string
  content :: string

definition createTextFile :: "string \<Rightarrow> string \<Rightarrow> string \<Rightarrow> OutputTextFile" where
  "createTextFile relativePath fileName c = \<lparr>path = relativePath, file_name = fileName, content = c\<rparr>"

text \<open>The naming cases the source names, and the others.\<close>

datatype StringCase = pascalCase | kebabCase | otherCase string

text \<open>
  The options of the exporter. An option that is \<^verbatim>\<open>undefined\<close> or empty is the empty
  string (\<^verbatim>\<open>||\<close> treats both alike), an absent \<^verbatim>\<open>folderNameStyle\<close> is \<open>None\<close>.
\<close>

record ExporterConfiguration =
  generateRootCatalog :: bool
  rootCatalogPath :: string
  excludeCollectionsInPipelines :: bool
  excludedCollections :: "string list"
  writeNameToProperty :: bool
  propertyToWriteNameTo :: string
  folderNameStyle :: "StringCase option"

record PulsarContext =
  dsId :: string
  versionId :: string
  brandId :: "string option"
  themeIds :: "string list option"
  isPreview :: bool

text \<open>
  The SDK: what its four fetches return in this run (the model covers the runs in which
  the fetches and the write-back return), and the function that applies themes to tokens.
\<close>

record Supernova =
  getTokens :: "Token list"
  getTokenGroups :: "TokenGroup list"
  getTokenCollections :: "TokenCollection list"
  getTokenThemes :: "TokenTheme list"
  computeTokensByApplyingThemes :: "Token list \<Rightarrow> Token list \<Rightarrow> TokenTheme list \<Rightarrow> Token list"

text \<open>
  The collaborators whose code is not part of the two source files, as parameters: the
  helpers of the utility library, the clock, and \<^verbatim>\<open>createCatalogRootFile\<close> and
  \<^verbatim>\<open>createPerTokenFile\<close> of \<^verbatim>\<open>./files/color-sets\<close>. \<open>'tr\<close> is the state of a
  \<^verbatim>\<open>TokenNameTracker\<close>, which \<^verbatim>\<open>createPerTokenFile\<close> reads and changes; the function
  returns no file where the source's returns a falsy value.
\<close>

record 'tr Collaborators =
  getThemeName :: "TokenTheme \<Rightarrow> string"
  codeSafeVariableName :: "string \<Rightarrow> StringCase \<Rightarrow> string"
  toISOString_now :: string
  newTokenNameTracker :: 'tr
  createCatalogRootFile :: "string \<Rightarrow> OutputTextFile"
  createPerTokenFile ::
    "Token \<Rightarrow> TokenGroup list \<Rightarrow> string \<Rightarrow> Token list \<Rightarrow> 'tr \<Rightarrow> StringCase
       \<Rightarrow> OutputTextFile option \<times> 'tr"

subsection \<open>Numbers, joins and JSON text\<close>

definition digit_char :: "nat \<Rightarrow> char" where
  "digit_char d = char_of (48 + d)"

function show_nat :: "nat \<Rightarrow> string" where
  "show_nat n = (if n < 10 then [digit_char n] else show_nat (n div 10) @ [digit_char (n mod 10)])"
  by pat_completeness auto
termination
  by (relation "measure (\<lambda>n. n)") auto

declare show_nat.simps [simp del]

fun join :: "string \<Rightarrow> string list \<Rightarrow> string" where
  "join sep [] = []"
| "join sep [x] = x"
| "join sep (x # y # ys) = x @ sep @ join sep (y # ys)"

text \<open>
  The objects the exporter serialises, and \<^verbatim>\<open>JSON.stringify(v, null, 2)\<close> on them: every
  property of an object on a line of its own, indented two spaces more than the object.
  The strings of these objects need no escape.
\<close>

datatype json = JNumber nat | JString string | JBool bool | JObject "(string \<times> json) list"

definition quote :: "string \<Rightarrow> string" where
  "quote s = [CHR 0x22] @ s @ [CHR 0x22]"

fun stringify_indent :: "string \<Rightarrow> json \<Rightarrow> string" where
  "stringify_indent ind (JNumber n) = show_nat n"
| "stringify_indent ind (JString s) = quote s"
| "stringify_indent ind (JBool b) = (if b then ''true'' else ''false'')"
| "stringify_indent ind (JObject kvs) =
     (if kvs = [] then ''{}''
      else ''{'' @ [CHR 0x0A]
        @ join ('','' @ [CHR 0x0A])
            (map (\<lambda>kv. ind @ ''  '' @ quote (fst kv) @ '': ''
                    @ stringify_indent (ind @ ''  '') (snd kv)) kvs)
        @ [CHR 0x0A] @ ind @ ''}'')"

definition JSON_stringify :: "json \<Rightarrow> string" where
  "JSON_stringify v = stringify_indent [] v"

subsection \<open>The logger\<close>

text \<open>
  The logger owns the file \<^verbatim>\<open>log.txt\<close>; \<open>log\<close> appends a line to its content. The
  process-wide logger is \<open>None\<close> before the first call of \<open>getLogger\<close>, which creates it;
  later calls return the logger that exists, whatever their argument.
\<close>

record Logger =
  logger_file :: OutputTextFile

definition new_Logger :: "string \<Rightarrow> Logger" where
  "new_Logger rootPath =
     \<lparr>logger_file =
        createTextFile (if rootPath \<noteq> [] then ''./'' @ rootPath @ ''/'' else []) ''log.txt'' []\<rparr>"

definition getFile :: "Logger \<Rightarrow> OutputTextFile" where
  "getFile l = logger_file l"

definition log :: "Logger \<Rightarrow> string \<Rightarrow> Logger" where
  "log l message =
     l\<lparr>logger_file := (logger_file l)
        \<lparr>content := (if content (logger_file l) \<noteq> []
                     then content (logger_file l) @ [CHR 0x0A] @ message else message)\<rparr>\<rparr>"

definition getLogger :: "string \<Rightarrow> Logger option \<Rightarrow> Logger" where
  "getLogger rootPath globalLogger =
     (case globalLogger of None \<Rightarrow> new_Logger rootPath | Some l \<Rightarrow> l)"

text \<open>
  The functions below return the lines they give to the logger, in order, beside their
  result; \<open>log_all\<close> appends such lines to the log.
\<close>

definition log_all :: "Logger \<Rightarrow> string list \<Rightarrow> Logger" where
  "log_all l lines = foldl log l lines"

subsection \<open>The steps of the export\<close>

datatype error = Error string

definition resolveRootPath :: "ExporterConfiguration \<Rightarrow> string" where
  "resolveRootPath config =
     (if \<not> generateRootCatalog config then []
      else if rootCatalogPath config \<noteq> [] then rootCatalogPath config else ''Colors.xcassets'')"

text \<open>
  \<^verbatim>\<open>context.themeIds.map(...)\<close> with its \<^verbatim>\<open>throw\<close>: the ids are looked up in order, and
  the first id without a theme ends the run with the error.
\<close>

fun resolveThemes :: "TokenTheme list \<Rightarrow> string list \<Rightarrow> error + TokenTheme list" where
  "resolveThemes themes [] = Inr []"
| "resolveThemes themes (themeId # ids) =
     (case find (\<lambda>t. theme_id t = themeId \<or> idInVersion t = themeId) themes of
        None \<Rightarrow> Inl (Error (''Unable to find theme '' @ themeId))
      | Some th \<Rightarrow>
          (case resolveThemes themes ids of
             Inl e \<Rightarrow> Inl e
           | Inr rest \<Rightarrow> Inr (th # rest)))"

definition filterExcludedCollections ::
  "ExporterConfiguration \<Rightarrow> Token list \<Rightarrow> TokenCollection list \<Rightarrow> Token list \<times> string list" where
  "filterExcludedCollections config colorTokens tokenCollections =
     (if \<not> excludeCollectionsInPipelines config \<or> length (excludedCollections config) = 0
      then (colorTokens, [''Excluded collections enabled: no''])
      else
        (let originalCount = length colorTokens;
             excludedCollectionNames =
               set (map (\<lambda>nm. trim (toLowerCase nm)) (excludedCollections config));
             filtered =
               filter (\<lambda>token.
                   case find (\<lambda>c. Some (persistentId c) = collectionId token) tokenCollections of
                     None \<Rightarrow> True
                   | Some tokenCollection \<Rightarrow>
                       trim (toLowerCase (collection_name tokenCollection))
                         \<notin> excludedCollectionNames)
                 colorTokens
         in (filtered,
             [''Excluded collections enabled: yes'',
              ''Excluded collections: '' @ join '', '' (excludedCollections config),
              ''Color tokens after exclusions: '' @ show_nat (length filtered)
                @ '' (was '' @ show_nat originalCount @ '')''])))"

definition logGroupedThemes :: "'tr Collaborators \<Rightarrow> XcodeTheme list \<Rightarrow> string list" where
  "logGroupedThemes ext groupedThemes =
     (if length groupedThemes = 0 then [''Grouped themes: none'']
      else
        (let items =
               join ''; ''
                 (map (\<lambda>g.
                     (let l = (case lightTheme g of Some t \<Rightarrow> getThemeName ext t | None \<Rightarrow> ''-'');
                          d = (case darkTheme g of Some t \<Rightarrow> getThemeName ext t | None \<Rightarrow> ''-'')
                      in name g @ '' (light: '' @ l @ '', dark: '' @ d @ '')''))
                   groupedThemes)
         in [''Grouped themes ('' @ show_nat (length groupedThemes) @ ''): '' @ items]))"

definition createNameSpaceFolder :: "string \<Rightarrow> string \<Rightarrow> OutputTextFile" where
  "createNameSpaceFolder nm rootPath =
     (let c = JSON_stringify
                (JObject
                   [(''info'', JObject [(''version'', JNumber 1), (''author'', JString ''xcode'')]),
                    (''properties'', JObject [(''provides-namespace'', JBool True)])])
      in createTextFile
           (if rootPath \<noteq> [] then ''./'' @ rootPath @ ''/'' @ nm else ''./'' @ nm)
           ''Contents.json'' c)"

definition computeTokensForTheme :: "Supernova \<Rightarrow> Token list \<Rightarrow> TokenTheme option \<Rightarrow> Token list" where
  "computeTokensForTheme sdk tokens th =
     (case th of
        None \<Rightarrow> []
      | Some t \<Rightarrow> computeTokensByApplyingThemes sdk tokens tokens [t])"

text \<open>
  \<^verbatim>\<open>new Map(entries)\<close> sets the entries in order, so the last entry of a key is the one
  the map holds.
\<close>

definition new_Map :: "('k \<times> 'v) list \<Rightarrow> ('k \<times> 'v) list" where
  "new_Map entries = foldl (\<lambda>m kv. AList.update (fst kv) (snd kv) m) [] entries"

text \<open>
  The loop of \<open>createThemeColors\<close> over the colour tokens. A token of the maps is an object
  and so never falsy: \<^verbatim>\<open>baseById.get(token.id) || token\<close> is the token of the map when
  the map has the id.
\<close>

fun createThemeColors_loop ::
  "'tr Collaborators \<Rightarrow> TokenGroup list \<Rightarrow> string \<Rightarrow> StringCase
     \<Rightarrow> (string \<times> Token) list \<Rightarrow> (string \<times> Token) list
     \<Rightarrow> Token list \<Rightarrow> 'tr \<Rightarrow> OutputTextFile list \<Rightarrow> OutputTextFile list \<times> 'tr" where
  "createThemeColors_loop ext tokenGroups colorsPath nameStyle baseById darkById [] tracker created
     = (created, tracker)"
| "createThemeColors_loop ext tokenGroups colorsPath nameStyle baseById darkById (token # rest)
       tracker created =
     (let baseToken = (case map_of baseById (token_id token) of Some b \<Rightarrow> b | None \<Rightarrow> token);
          darkVariant = map_of darkById (token_id token);
          variants = (case darkVariant of Some d \<Rightarrow> [d] | None \<Rightarrow> []);
          r = createPerTokenFile ext baseToken tokenGroups colorsPath variants tracker nameStyle
      in createThemeColors_loop ext tokenGroups colorsPath nameStyle baseById darkById rest (snd r)
           (case fst r of Some f \<Rightarrow> created @ [f] | None \<Rightarrow> created))"

text \<open>
  \<open>createThemeColors\<close>: the files created and the lines logged. The write-back of the names
  is a call of the platform that leaves the files and the log as they are; its log line is
  kept.
\<close>

definition createThemeColors ::
  "Supernova \<Rightarrow> 'tr Collaborators \<Rightarrow> ExporterConfiguration \<Rightarrow> PulsarContext
     \<Rightarrow> Token list \<Rightarrow> TokenGroup list \<Rightarrow> Token list
     \<Rightarrow> string \<Rightarrow> TokenTheme \<Rightarrow> TokenTheme option \<Rightarrow> OutputTextFile list \<times> string list" where
  "createThemeColors sdk ext config ctx tokens tokenGroups colorTokens colorsPath lightTh darkTh =
     (let baseTokens = computeTokensForTheme sdk tokens (Some lightTh);
          darkTokens = computeTokensForTheme sdk tokens darkTh;
          baseById = new_Map (map (\<lambda>t. (token_id t, t)) baseTokens);
          darkById = new_Map (map (\<lambda>t. (token_id t, t)) darkTokens);
          tracker = newTokenNameTracker ext;
          nameStyle = (case folderNameStyle config of Some s \<Rightarrow> s | None \<Rightarrow> kebabCase);
          created = fst (createThemeColors_loop ext tokenGroups colorsPath nameStyle
                           baseById darkById colorTokens tracker []);
          themedVariantCount =
            length (filter (\<lambda>t. map_of darkById (token_id t) \<noteq> None) colorTokens)
      in (created,
          [''Applied base theme: '' @ getThemeName ext lightTh,
           ''Applied dark theme: ''
             @ (case darkTh of Some d \<Rightarrow> getThemeName ext d | None \<Rightarrow> ''none''),
           ''Emitted color set files: '' @ show_nat (length colorTokens),
           (if writeNameToProperty config \<and> \<not> isPreview ctx
            then ''Wrote exported names to property: '' @ propertyToWriteNameTo config
            else ''Write-back disabled or preview mode''),
           ''Dark variants generated: '' @ show_nat themedVariantCount]))"

text \<open>The part of the \<^verbatim>\<open>ExportContext\<close> that \<open>exportThemeGroup\<close> and its callees read
  (the fields carry the prefix \<open>ec\<close>).\<close>

record 'tr ExportContext =
  ec_sdk :: Supernova
  ec_ext :: "'tr Collaborators"
  ec_pulsarContext :: PulsarContext
  ec_rootPath :: string
  ec_config :: ExporterConfiguration
  ec_tokens :: "Token list"
  ec_tokenGroups :: "TokenGroup list"
  ec_colorTokens :: "Token list"

definition exportThemeGroup ::
  "'tr ExportContext \<Rightarrow> XcodeTheme \<Rightarrow> OutputTextFile list \<times> string list" where
  "exportThemeGroup runtime themeGroup =
     (let lines1 =
            [''Grouped theme: '' @ name themeGroup
               @ '', light: '' @ (if lightTheme themeGroup \<noteq> None then ''yes'' else ''no'')
               @ '', dark: '' @ (if darkTheme themeGroup \<noteq> None then ''yes'' else ''no''),
             ''Root path for theme: '' @ (if ec_rootPath runtime \<noteq> [] then ec_rootPath runtime else ''-'')];
          themeName = codeSafeVariableName (ec_ext runtime) (name themeGroup) pascalCase;
          namespaceFile = createNameSpaceFolder themeName (ec_rootPath runtime);
          lines2 = lines1 @ [''Created namespace folder for theme: '' @ path namespaceFile
                               @ ''/'' @ file_name namespaceFile]
      in case lightTheme themeGroup of
           None \<Rightarrow>
             ([namespaceFile],
              lines2 @ [''Skipped color generation for '' @ name themeGroup
                          @ '' because no light theme variant was provided.''])
         | Some lightTh \<Rightarrow>
             (let colorsPath = (if ec_rootPath runtime \<noteq> [] then ec_rootPath runtime @ ''/'' @ themeName
                                else themeName);
                  r = createThemeColors (ec_sdk runtime) (ec_ext runtime)
                        (ec_config runtime) (ec_pulsarContext runtime) (ec_tokens runtime)
                        (ec_tokenGroups runtime) (ec_colorTokens runtime) colorsPath lightTh
                        (darkTheme themeGroup)
              in (namespaceFile # fst r, lines2 @ [''Colors path: '' @ colorsPath] @ snd r)))"

text \<open>The loop of the entry point over the theme groups: the files and the lines, in order.\<close>

fun exportThemeGroups ::
  "'tr ExportContext \<Rightarrow> XcodeTheme list \<Rightarrow> OutputTextFile list \<times> string list" where
  "exportThemeGroups runtime [] = ([], [])"
| "exportThemeGroups runtime (themeGroup # rest) =
     (let r = exportThemeGroup runtime themeGroup;
          rs = exportThemeGroups runtime rest
      in (fst r @ fst rs, snd r @ snd rs))"

text \<open>
  The entry point given to \<^verbatim>\<open>Pulsar.export\<close>. The log file is the first element of the
  list from the start and the logger writes to that same file until the run returns, so
  the list returned holds it with the whole log. The groups' lines are appended as their
  files are.
\<close>

definition Pulsar_export ::
  "Supernova \<Rightarrow> 'tr Collaborators \<Rightarrow> ExporterConfiguration \<Rightarrow> PulsarContext \<Rightarrow> Logger option
     \<Rightarrow> error + OutputTextFile list" where
  "Pulsar_export sdk ext config ctx globalLogger =
     (let rootP = resolveRootPath config;
          logger0 = getLogger rootP globalLogger;
          tokens0 = getTokens sdk;
          tokenGroups0 = getTokenGroups sdk;
          tokenCollections0 = getTokenCollections sdk;
          logger1 = log_all logger0
            [''Exporter: Xcode Color Set'',
             ''Started: '' @ toISOString_now ext,
             ''Design System ID: '' @ dsId ctx,
             ''Version ID: '' @ versionId ctx,
             ''Brand ID: '' @ (case brandId ctx of Some b \<Rightarrow> b | None \<Rightarrow> ''-''),
             ''Fetched tokens: '' @ show_nat (length tokens0),
             ''Fetched token groups: '' @ show_nat (length tokenGroups0),
             ''token groups: '' @ join '', '' (map group_name (take 5 tokenGroups0))
               @ (if length tokenGroups0 > 5 then '', ...'' else []),
             ''Fetched collections: '' @ show_nat (length tokenCollections0),
             ''token collections: '' @ join '', '' (map collection_name tokenCollections0)];
          colorTokens0 = filter (\<lambda>t. tokenType t = Color) tokens0;
          logger2 = log logger1 (''Filtered color tokens: '' @ show_nat (length colorTokens0));
          resolved =
            (case themeIds ctx of
               None \<Rightarrow> Inr ([], [''Resolved themes: none''])
             | Some ids \<Rightarrow>
                 if length ids > 0
                 then (case resolveThemes (getTokenThemes sdk) ids of
                         Inl e \<Rightarrow> Inl e
                       | Inr ths \<Rightarrow>
                           Inr (ths,
                             [''Resolved themes: ''
                                @ (let s = join '', '' (map (getThemeName ext) ths)
                                   in if s \<noteq> [] then s else ''-'')]))
                 else Inr ([], [''Resolved themes: none'']))
      in case resolved of
           Inl e \<Rightarrow> Inl e
         | Inr (themesToApply, resolvedLines) \<Rightarrow>
             (let logger3 = log_all logger2 resolvedLines;
                  fe = filterExcludedCollections config colorTokens0 tokenCollections0;
                  logger4 = log_all logger3 (snd fe);
                  rootFiles = (if generateRootCatalog config
                               then [createCatalogRootFile ext rootP] else []);
                  logger5 = log logger4
                    (if generateRootCatalog config then ''Created root catalog: '' @ rootP
                     else ''Root catalog generation disabled'');
                  grouped = groupThemes_run themesToApply;
                  logger6 = log_all logger5 (snd grouped);
                  logger7 = log_all logger6 (logGroupedThemes ext (fst grouped));
                  exportContext =
                    \<lparr>ec_sdk = sdk, ec_ext = ext, ec_pulsarContext = ctx, ec_rootPath = rootP,
                     ec_config = config, ec_tokens = tokens0,
                     ec_tokenGroups = tokenGroups0, ec_colorTokens = fst fe\<rparr>;
                  gs = exportThemeGroups exportContext (fst grouped);
                  logger8 = log_all logger7 (snd gs)
              in Inr ([getFile logger8] @ rootFiles @ fst gs)))"

section \<open>Notions the properties are stated with\<close>

text \<open>
  The definitions of this section are not part of the program. They say in closed form what
  the statements below compare the program with.
\<close>

text \<open>
  \<open>s\<close> ends with the word \<open>w\<close>: \<open>w\<close> is a suffix of \<open>s\<close>, and it starts the string or
  follows a code unit that is no word character.
\<close>

definition ends_with_word :: "string \<Rightarrow> string \<Rightarrow> bool" where
  "ends_with_word w s =
     (length w \<le> length s \<and> drop (length s - length w) s = w
      \<and> (length s = length w \<or> \<not> is_word_char (s ! (length s - length w - 1))))"

text \<open>The base name and the variant of a theme whose name has a variant.\<close>

definition classify :: "TokenTheme \<Rightarrow> (string \<times> ThemeVariant) option" where
  "classify t =
     (case getThemeVariant (theme_name t) of
        None \<Rightarrow> None
      | Some v \<Rightarrow> Some (deriveBaseThemeName (theme_name t) (Some v), v))"

text \<open>
  The elements of a list in the order of their first occurrence (\<^const>\<open>remdups\<close> keeps
  the last occurrence of each element), and the position of the first occurrence.
\<close>

definition first_seen :: "'a list \<Rightarrow> 'a list" where
  "first_seen xs = rev (remdups (rev xs))"

definition first_index :: "'a list \<Rightarrow> 'a \<Rightarrow> nat" where
  "first_index xs x = length (takeWhile (\<lambda>y. y \<noteq> x) xs)"

definition last_option :: "'a list \<Rightarrow> 'a option" where
  "last_option xs = (if xs = [] then None else Some (last xs))"

text \<open>The last theme of the input with a given base name and variant, if there is one.\<close>

definition slot_of :: "TokenTheme list \<Rightarrow> string \<Rightarrow> ThemeVariant \<Rightarrow> TokenTheme option" where
  "slot_of themes base v = last_option (filter (\<lambda>t. classify t = Some (base, v)) themes)"

text \<open>The base names of the themes that have a variant, in input order.\<close>

definition classified_bases :: "TokenTheme list \<Rightarrow> string list" where
  "classified_bases themes =
     map (\<lambda>t. deriveBaseThemeName (theme_name t) (getThemeVariant (theme_name t)))
       (filter (\<lambda>t. getThemeVariant (theme_name t) \<noteq> None) themes)"

definition group_bases :: "TokenTheme list \<Rightarrow> string list" where
  "group_bases themes = first_seen (classified_bases themes)"

definition entry_of :: "TokenTheme list \<Rightarrow> string \<Rightarrow> ThemeVariantMap" where
  "entry_of themes base = \<lparr>light = slot_of themes base Light, dark = slot_of themes base Dark\<rparr>"

definition group_of :: "TokenTheme list \<Rightarrow> string \<Rightarrow> XcodeTheme" where
  "group_of themes b =
     \<lparr>name = b, lightTheme = slot_of themes b Light, darkTheme = slot_of themes b Dark\<rparr>"

text \<open>The slot of a group for a variant.\<close>

fun slot :: "ThemeVariant \<Rightarrow> XcodeTheme \<Rightarrow> TokenTheme option" where
  "slot Light g = lightTheme g"
| "slot Dark g = darkTheme g"

text \<open>
  The lines one theme adds to the log, given the themes before it: the skip line when its
  name has no variant, the duplicate line when an earlier theme has its base name and
  variant, and nothing otherwise.
\<close>

definition log_lines :: "TokenTheme list \<Rightarrow> TokenTheme \<Rightarrow> string list" where
  "log_lines earlier t =
     (case classify t of
        None \<Rightarrow> [skip_message (theme_name t)]
      | Some (b, v) \<Rightarrow>
          if list_ex (\<lambda>t'. classify t' = Some (b, v)) earlier
          then [duplicate_message v b] else [])"

definition expected_log :: "TokenTheme list \<Rightarrow> string list" where
  "expected_log ts = concat (map (\<lambda>j. log_lines (take j ts) (ts ! j)) [0..<length ts])"

subsection \<open>Sample data\<close>

definition theme :: "string \<Rightarrow> string \<Rightarrow> TokenTheme" where
  "theme i n = \<lparr>theme_id = i, idInVersion = ''v-'' @ i, theme_name = n\<rparr>"

definition sample_themes :: "TokenTheme list" where
  "sample_themes =
     [theme ''1'' ''Brand Light'', theme ''2'' ''Brand'', theme ''3'' '' brand-DARK '',
      theme ''4'' ''Brand  light'']"

subsection \<open>Notions for the export\<close>

text \<open>
  The value of a token id under a valuation (the tokens a theme computes): the last token
  of the valuation with that id, if there is one.
\<close>

definition value_under :: "Token list \<Rightarrow> string \<Rightarrow> Token option" where
  "value_under valuation tid = last_option (filter (\<lambda>t. token_id t = tid) valuation)"

text \<open>
  What a colour token is emitted with: the base value, and the list of the dark variant
  (empty when there is none).
\<close>

definition emitted_base :: "Token list \<Rightarrow> Token \<Rightarrow> Token" where
  "emitted_base baseTokens token =
     (case value_under baseTokens (token_id token) of Some b \<Rightarrow> b | None \<Rightarrow> token)"

definition emitted_variants :: "Token list \<Rightarrow> Token \<Rightarrow> Token list" where
  "emitted_variants darkTokens token =
     (case value_under darkTokens (token_id token) of Some d \<Rightarrow> [d] | None \<Rightarrow> [])"

text \<open>
  The files a per-token file maker gives for a list of base values and variants, the name
  tracker passed from one call to the next.
\<close>

fun emit_each ::
  "(Token \<Rightarrow> Token list \<Rightarrow> 'tr \<Rightarrow> OutputTextFile option \<times> 'tr)
     \<Rightarrow> (Token \<times> Token list) list \<Rightarrow> 'tr \<Rightarrow> OutputTextFile list" where
  "emit_each mk [] tracker = []"
| "emit_each mk (bv # rest) tracker =
     (case fst (mk (fst bv) (snd bv) tracker) of
        Some f \<Rightarrow> f # emit_each mk rest (snd (mk (fst bv) (snd bv) tracker))
      | None \<Rightarrow> emit_each mk rest (snd (mk (fst bv) (snd bv) tracker)))"

text \<open>The themes a run selects: none without requested ids, else the themes of the ids.\<close>

definition selected_themes :: "Supernova \<Rightarrow> PulsarContext \<Rightarrow> error + TokenTheme list" where
  "selected_themes sdk ctx =
     (case themeIds ctx of
        None \<Rightarrow> Inr []
      | Some ids \<Rightarrow> if ids = [] then Inr [] else resolveThemes (getTokenThemes sdk) ids)"

text \<open>The colour tokens that reach the theme groups, and the context the groups get.\<close>

definition selectColorTokens :: "ExporterConfiguration \<Rightarrow> Supernova \<Rightarrow> Token list" where
  "selectColorTokens config sdk =
     fst (filterExcludedCollections config
            (filter (\<lambda>t. tokenType t = Color) (getTokens sdk)) (getTokenCollections sdk))"

definition run_context ::
  "Supernova \<Rightarrow> 'tr Collaborators \<Rightarrow> ExporterConfiguration \<Rightarrow> PulsarContext \<Rightarrow> 'tr ExportContext" where
  "run_context sdk ext config ctx =
     \<lparr>ec_sdk = sdk, ec_ext = ext, ec_pulsarContext = ctx, ec_rootPath = resolveRootPath config,
      ec_config = config, ec_tokens = getTokens sdk,
      ec_tokenGroups = getTokenGroups sdk,
      ec_colorTokens = selectColorTokens config sdk\<rparr>"

text \<open>The owning collection of a token: the first collection with its collection id.\<close>

definition owning_collection :: "TokenCollection list \<Rightarrow> Token \<Rightarrow> TokenCollection option" where
  "owning_collection tokenCollections token =
     find (\<lambda>c. Some (persistentId c) = collectionId token) tokenCollections"

text \<open>The text of the namespace marker.\<close>

definition namespace_marker_text :: string where
  "namespace_marker_text =
     ''{'' @ [CHR 0x0A]
     @ ''  '' @ quote ''info'' @ '': {'' @ [CHR 0x0A]
     @ ''    '' @ quote ''version'' @ '': 1,'' @ [CHR 0x0A]
     @ ''    '' @ quote ''author'' @ '': '' @ quote ''xcode'' @ [CHR 0x0A]
     @ ''  },'' @ [CHR 0x0A]
     @ ''  '' @ quote ''properties'' @ '': {'' @ [CHR 0x0A]
     @ ''    '' @ quote ''provides-namespace'' @ '': true'' @ [CHR 0x0A]
     @ ''  }'' @ [CHR 0x0A]
     @ ''}''"

text \<open>The root catalog file of a run, when the configuration asks for one.\<close>

definition root_files :: "'tr Collaborators \<Rightarrow> ExporterConfiguration \<Rightarrow> OutputTextFile list" where
  "root_files ext config =
     (if generateRootCatalog config then [createCatalogRootFile ext (resolveRootPath config)]
      else [])"

text \<open>A requested id matches a theme by its \<^verbatim>\<open>id\<close> or its \<^verbatim>\<open>idInVersion\<close>.\<close>

definition theme_matches :: "string \<Rightarrow> TokenTheme \<Rightarrow> bool" where
  "theme_matches themeId t = (theme_id t = themeId \<or> idInVersion t = themeId)"

text \<open>
  For a theme group: the path under which its colour sets go, its namespace marker file,
  and the colour-set files of its light theme \<open>lt\<close>.
\<close>

definition colors_path :: "'tr ExportContext \<Rightarrow> XcodeTheme \<Rightarrow> string" where
  "colors_path runtime g =
     (if ec_rootPath runtime \<noteq> []
      then ec_rootPath runtime @ ''/'' @ codeSafeVariableName (ec_ext runtime) (name g) pascalCase
      else codeSafeVariableName (ec_ext runtime) (name g) pascalCase)"

definition namespace_file :: "'tr ExportContext \<Rightarrow> XcodeTheme \<Rightarrow> OutputTextFile" where
  "namespace_file runtime g =
     createNameSpaceFolder (codeSafeVariableName (ec_ext runtime) (name g) pascalCase)
       (ec_rootPath runtime)"

definition color_files :: "'tr ExportContext \<Rightarrow> XcodeTheme \<Rightarrow> TokenTheme \<Rightarrow> OutputTextFile list" where
  "color_files runtime g lt =
     fst (createThemeColors (ec_sdk runtime) (ec_ext runtime) (ec_config runtime)
            (ec_pulsarContext runtime) (ec_tokens runtime) (ec_tokenGroups runtime)
            (ec_colorTokens runtime) (colors_path runtime g) lt (darkTheme g))"

text \<open>
  The exclusion set (the configured names, lower-cased and trimmed), and whether a token's
  owning collection resolves and has its name, lower-cased and trimmed, in that set.
\<close>

definition excluded_names :: "ExporterConfiguration \<Rightarrow> string set" where
  "excluded_names config = set (map (\<lambda>nm. trim (toLowerCase nm)) (excludedCollections config))"

definition in_excluded_collection ::
  "ExporterConfiguration \<Rightarrow> TokenCollection list \<Rightarrow> Token \<Rightarrow> bool" where
  "in_excluded_collection config tokenCollections token =
     (case owning_collection tokenCollections token of
        None \<Rightarrow> False
      | Some c \<Rightarrow> trim (toLowerCase (collection_name c)) \<in> excluded_names config)"

subsection \<open>Sample data of a run\<close>

definition sample_tokens :: "Token list" where
  "sample_tokens =
     [\<lparr>token_id = ''t1'', tokenType = Color, collectionId = Some ''c1'', token_value = ''#111''\<rparr>,
      \<lparr>token_id = ''t2'', tokenType = Color, collectionId = Some ''c2'', token_value = ''#222''\<rparr>,
      \<lparr>token_id = ''t3'', tokenType = OtherTokenType ''dimension'', collectionId = Some ''c1'',
         token_value = ''8px''\<rparr>,
      \<lparr>token_id = ''t4'', tokenType = Color, collectionId = None, token_value = ''#444''\<rparr>,
      \<lparr>token_id = ''t5'', tokenType = Color, collectionId = Some ''c9'', token_value = ''#555''\<rparr>]"

definition sample_collections :: "TokenCollection list" where
  "sample_collections =
     [\<lparr>persistentId = ''c1'', collection_name = ''Core''\<rparr>,
      \<lparr>persistentId = ''c2'', collection_name = '' Internal ''\<rparr>]"

text \<open>
  A sample theme application: the theme with id 1 gives every token but \<open>t4\<close> a value,
  every other theme gives only \<open>t1\<close> a value.
\<close>

definition sample_apply :: "Token list \<Rightarrow> Token list \<Rightarrow> TokenTheme list \<Rightarrow> Token list" where
  "sample_apply ts all ths =
     map (\<lambda>t. t\<lparr>token_value := token_value t @ ''@'' @ concat (map theme_id ths)\<rparr>)
       (filter (\<lambda>t. if map theme_id ths = [''1''] then token_id t \<noteq> ''t4''
                     else token_id t = ''t1'') ts)"

definition sample_sdk :: Supernova where
  "sample_sdk =
     \<lparr>getTokens = sample_tokens, getTokenGroups = [\<lparr>group_name = ''Palette''\<rparr>],
      getTokenCollections = sample_collections,
      getTokenThemes = sample_themes @ [theme ''5'' ''Brand Dark''],
      computeTokensByApplyingThemes = sample_apply\<rparr>"

text \<open>
  Sample collaborators: the tracker counts the files made; a per-token file holds the base
  value and the dark values it was made from.
\<close>

definition sample_ext :: "nat Collaborators" where
  "sample_ext =
     \<lparr>getThemeName = theme_name,
      codeSafeVariableName = (\<lambda>s c. filter (\<lambda>ch. \<not> is_space ch) s),
      toISOString_now = ''2024-01-01T00:00:00.000Z'',
      newTokenNameTracker = 0,
      createCatalogRootFile = (\<lambda>p. createTextFile (''./'' @ p) ''Contents.json'' ''{}''),
      createPerTokenFile = (\<lambda>b gs p vs tr c.
         (Some (createTextFile (''./'' @ p @ ''/'' @ token_id b @ ''.colorset'') ''Contents.json''
                  (token_value b @ concat (map (\<lambda>v. '' dark '' @ token_value v) vs))),
          Suc tr))\<rparr>"

definition sample_config :: ExporterConfiguration where
  "sample_config =
     \<lparr>generateRootCatalog = True, rootCatalogPath = [], excludeCollectionsInPipelines = True,
      excludedCollections = [''INTERNAL  ''], writeNameToProperty = False,
      propertyToWriteNameTo = [], folderNameStyle = None\<rparr>"

definition sample_ctx :: "string list option \<Rightarrow> PulsarContext" where
  "sample_ctx ids =
     \<lparr>dsId = ''ds'', versionId = ''ver'', brandId = None, themeIds = ids, isPreview = True\<rparr>"

definition sample_selection :: PulsarContext where
  "sample_selection = sample_ctx (Some [''1'', ''5'', ''v-3''])"

text \<open>Three groups, the tokens of the run by position, and the values of two themes.\<close>

definition both_themes :: XcodeTheme where
  "both_themes =
     \<lparr>name = ''Brand'', lightTheme = Some (theme ''1'' ''Brand Light''),
      darkTheme = Some (theme ''5'' ''Brand Dark'')\<rparr>"

definition dark_only :: XcodeTheme where
  "dark_only =
     \<lparr>name = ''brand-DARK'', lightTheme = None, darkTheme = Some (theme ''3'' '' brand-DARK '')\<rparr>"

definition light_only :: XcodeTheme where
  "light_only =
     \<lparr>name = ''Brand'', lightTheme = Some (theme ''1'' ''Brand Light''), darkTheme = None\<rparr>"

definition sample_token :: "nat \<Rightarrow> Token" where
  "sample_token i = sample_tokens ! i"

definition sample_light_values :: "Token list" where
  "sample_light_values =
     computeTokensForTheme sample_sdk sample_tokens (Some (theme ''1'' ''Brand Light''))"

definition sample_dark_values :: "Token list" where
  "sample_dark_values =
     computeTokensForTheme sample_sdk sample_tokens (Some (theme ''5'' ''Brand Dark''))"

definition sample_color_tokens :: "Token list" where
  "sample_color_tokens = filter (\<lambda>t. tokenType t = Color) sample_tokens"

section \<open>The theme grouper: lemmas\<close>

lemma list_ex_upto: "list_ex P [0..<Suc n] = (\<exists>i\<le>n. P i)"
  unfolding list_ex_iff set_upt by (metis atLeastLessThan_iff less_Suc_eq_le zero_le)

lemma match_word_at_end:
  assumes w: "w \<noteq> []" "is_word_char (hd w)" "is_word_char (last w)"
  shows "match_here [WordB, Lit w, WordB, EndA] s i
         \<longleftrightarrow> (i + length w = length s \<and> drop i s = w \<and> (i = 0 \<or> \<not> is_word_char (s ! (i - 1))))"
proof (cases "i + length w = length s \<and> drop i s = w")
  case False
  then show ?thesis by auto
next
  case True
  have "0 < length w" using w(1) by simp
  then have il: "i < length s" using True by linarith
  have "s ! i = hd (drop i s)" using il by (simp add: hd_drop_conv_nth)
  then have a: "is_word_char (s ! i)" using True w(2) by simp
  have ne: "s \<noteq> []" using il by (cases s) simp_all
  then have c: "0 < length s" by simp
  have "s ! (length s - 1) = last s" using ne by (simp add: last_conv_nth)
  also have "last s = last (drop i s)" using il ne by simp
  finally have b: "is_word_char (s ! (length s - 1))" using True w(3) by simp
  have t: "take (length w) (drop i s) = w" using True by simp
  have "match_here [WordB, Lit w, WordB, EndA] s i
        \<longleftrightarrow> \<not> (0 < i \<and> is_word_char (s ! (i - 1)))"
    using True a b c il t by simp
  then show ?thesis using True by auto
qed

lemma regex_test_word_at_end:
  assumes w: "w \<noteq> []" "is_word_char (hd w)" "is_word_char (last w)"
  shows "regex_test [WordB, Lit w, WordB, EndA] s = ends_with_word w s"
proof -
  have "regex_test [WordB, Lit w, WordB, EndA] s
        \<longleftrightarrow> (\<exists>i\<le>length s. i + length w = length s \<and> drop i s = w
                 \<and> (i = 0 \<or> \<not> is_word_char (s ! (i - 1))))"
    unfolding regex_test_def list_ex_upto match_word_at_end[OF w] ..
  also have "\<dots> \<longleftrightarrow> ends_with_word w s"
    unfolding ends_with_word_def
  proof
    assume "\<exists>i\<le>length s. i + length w = length s \<and> drop i s = w
                 \<and> (i = 0 \<or> \<not> is_word_char (s ! (i - 1)))"
    then obtain i where i: "i + length w = length s" "drop i s = w" "i = 0 \<or> \<not> is_word_char (s ! (i - 1))"
      by blast
    then have "i = length s - length w" by simp
    with i show "length w \<le> length s \<and> drop (length s - length w) s = w
      \<and> (length s = length w \<or> \<not> is_word_char (s ! (length s - length w - 1)))"
      by auto
  next
    assume a: "length w \<le> length s \<and> drop (length s - length w) s = w
      \<and> (length s = length w \<or> \<not> is_word_char (s ! (length s - length w - 1)))"
    show "\<exists>i\<le>length s. i + length w = length s \<and> drop i s = w
                 \<and> (i = 0 \<or> \<not> is_word_char (s ! (i - 1)))"
      by (rule exI[of _ "length s - length w"]) (use a in auto)
  qed
  finally show ?thesis .
qed

lemma ends_with_word_iff:
  "ends_with_word w s \<longleftrightarrow> (\<exists>pre. s = pre @ w \<and> (pre = [] \<or> \<not> is_word_char (last pre)))"
proof
  assume a: "ends_with_word w s"
  define pre where "pre = take (length s - length w) s"
  have s: "s = pre @ w" using a unfolding ends_with_word_def pre_def
    by (metis append_take_drop_id)
  have "pre = [] \<or> \<not> is_word_char (last pre)"
  proof (cases "pre = []")
    case False
    then have l: "length pre = length s - length w" "length s \<noteq> length w" using s by auto
    have "last pre = s ! (length s - length w - 1)"
      using False l s by (simp add: last_conv_nth nth_append)
    then show ?thesis using a l unfolding ends_with_word_def by auto
  qed simp
  with s show "\<exists>pre. s = pre @ w \<and> (pre = [] \<or> \<not> is_word_char (last pre))" by blast
next
  assume "\<exists>pre. s = pre @ w \<and> (pre = [] \<or> \<not> is_word_char (last pre))"
  then obtain pre where p: "s = pre @ w" "pre = [] \<or> \<not> is_word_char (last pre)" by blast
  show "ends_with_word w s"
  proof (cases "pre = []")
    case True
    then show ?thesis using p by (simp add: ends_with_word_def)
  next
    case False
    then have "last pre = s ! (length s - length w - 1)"
      using p by (simp add: last_conv_nth nth_append)
    then show ?thesis using p False by (simp add: ends_with_word_def)
  qed
qed

lemma getThemeVariant_Light:
  "getThemeVariant nm = Some Light \<longleftrightarrow> ends_with_word ''light'' (toLowerCase (trim nm))"
  by (simp add: getThemeVariant_def Let_def regex_test_word_at_end is_word_char_def)

lemma ends_light_not_dark:
  "ends_with_word ''light'' s \<Longrightarrow> \<not> ends_with_word ''dark'' s"
  unfolding ends_with_word_iff by (auto simp: append_eq_append_conv2 Cons_eq_append_conv)

lemma getThemeVariant_Dark:
  "getThemeVariant nm = Some Dark \<longleftrightarrow> ends_with_word ''dark'' (toLowerCase (trim nm))"
  using ends_light_not_dark[of "toLowerCase (trim nm)"]
  by (auto simp add: getThemeVariant_def Let_def regex_test_word_at_end is_word_char_def)

lemma split_ws_from_hd:
  "\<exists>rest. split_ws_from cur s = (cur @ takeWhile (\<lambda>c. \<not> is_space c) s) # rest"
  by (induction cur s rule: split_ws_from.induct) auto

lemma deriveBaseThemeName_first_token:
  "deriveBaseThemeName nm v = takeWhile (\<lambda>c. \<not> is_space c) (trim nm)"
proof -
  obtain rest where "split_ws (trim nm) = takeWhile (\<lambda>c. \<not> is_space c) (trim nm) # rest"
    using split_ws_from_hd[of "[]" "trim nm"] by (auto simp: split_ws_def)
  then show ?thesis by (simp add: deriveBaseThemeName_def Let_def)
qed

lemma classify_eq_None: "classify t = None \<longleftrightarrow> getThemeVariant (theme_name t) = None"
  by (simp add: classify_def split: option.splits)

lemma classify_eq_Some:
  "classify t = Some (b, v) \<longleftrightarrow>
     getThemeVariant (theme_name t) = Some v \<and> deriveBaseThemeName (theme_name t) (Some v) = b"
  by (auto simp: classify_def split: option.splits)

lemma first_seen_snoc:
  "first_seen (xs @ [x]) = (if x \<in> set xs then first_seen xs else first_seen xs @ [x])"
  by (simp add: first_seen_def)

lemma set_first_seen [simp]: "set (first_seen xs) = set xs"
  by (simp add: first_seen_def)

lemma distinct_first_seen [simp]: "distinct (first_seen xs)"
  by (simp add: first_seen_def)

lemma groupThemes_loop_snoc:
  "groupThemes_loop (ts @ [t]) st = groupThemes_step (groupThemes_loop ts st) t"
  by (induction ts arbitrary: st) auto

lemma update_map_keys:
  "distinct ks \<Longrightarrow> AList.update k v (map (\<lambda>x. (x, f x)) ks) =
     (if k \<in> set ks then map (\<lambda>x. (x, (f(k := v)) x)) ks
      else map (\<lambda>x. (x, f x)) ks @ [(k, v)])"
  by (induction ks) auto

lemma map_of_map_keys:
  "map_of (map (\<lambda>x. (x, f x)) ks) k = (if k \<in> set ks then Some (f k) else None)"
  by (induction ks) auto

lemma set_group_bases:
  "set (group_bases ts) = {b. \<exists>t\<in>set ts. \<exists>v. classify t = Some (b, v)}"
  by (force simp: group_bases_def classified_bases_def classify_eq_Some image_iff)

lemma distinct_group_bases [simp]: "distinct (group_bases ts)"
  by (simp add: group_bases_def)

lemma group_bases_snoc:
  "group_bases (ts @ [t]) =
     (case classify t of None \<Rightarrow> group_bases ts
      | Some (b, v) \<Rightarrow> if b \<in> set (group_bases ts) then group_bases ts else group_bases ts @ [b])"
  by (auto simp: group_bases_def classified_bases_def first_seen_snoc classify_def
      split: option.splits)

lemma slot_of_snoc:
  "slot_of (ts @ [t]) b v = (if classify t = Some (b, v) then Some t else slot_of ts b v)"
  by (simp add: slot_of_def last_option_def)

lemma slot_of_Some:
  "slot_of ts b v = Some t \<Longrightarrow> t \<in> set ts \<and> classify t = Some (b, v)"
proof -
  assume a: "slot_of ts b v = Some t"
  let ?cs = "filter (\<lambda>t. classify t = Some (b, v)) ts"
  from a have ne: "?cs \<noteq> []" and l: "last ?cs = t"
    by (auto simp: slot_of_def last_option_def split: if_splits)
  then have "t \<in> set ?cs" using last_in_set by blast
  then show ?thesis by simp
qed

lemma slot_of_Some_base: "slot_of ts b v = Some t \<Longrightarrow> b \<in> set (group_bases ts)"
  using slot_of_Some[of ts b v t] by (auto simp: set_group_bases)

lemma entry_of_no_base:
  "b \<notin> set (group_bases ts) \<Longrightarrow> entry_of ts b = \<lparr>light = None, dark = None\<rparr>"
  using slot_of_Some_base[of ts b] by (cases "slot_of ts b Light"; cases "slot_of ts b Dark")
    (auto simp: entry_of_def)

lemma entry_of_snoc:
  "classify t = Some (b, v) \<Longrightarrow>
   entry_of (ts @ [t]) b' = (if b' = b then entry_set (entry_of ts b) v t else entry_of ts b')"
  by (cases v) (auto simp: entry_of_def slot_of_snoc)

lemma entry_get_entry_of: "entry_get (entry_of ts b) v = slot_of ts b v"
  by (cases v) (simp_all add: entry_of_def)

lemma loop_groups_step:
  assumes c: "classify t = Some (b, v)"
  shows "AList.update b (entry_set (entry_of ts b) v t) (map (\<lambda>b. (b, entry_of ts b)) (group_bases ts))
         = map (\<lambda>b. (b, entry_of (ts @ [t]) b)) (group_bases (ts @ [t]))"
proof (cases "b \<in> set (group_bases ts)")
  case True
  then show ?thesis using c
    by (simp add: update_map_keys group_bases_snoc entry_of_snoc fun_upd_def)
next
  case False
  then have "map (\<lambda>x. (x, entry_of (ts @ [t]) x)) (group_bases ts)
             = map (\<lambda>x. (x, entry_of ts x)) (group_bases ts)"
    using c by (intro map_cong) (auto simp: entry_of_snoc)
  then show ?thesis using False c
    by (simp add: update_map_keys group_bases_snoc entry_of_snoc)
qed

lemma loop_groups:
  "fst (groupThemes_loop ts ([], [])) = map (\<lambda>b. (b, entry_of ts b)) (group_bases ts)"
proof (induction ts rule: rev_induct)
  case Nil
  show ?case by (simp add: group_bases_def classified_bases_def first_seen_def)
next
  case (snoc t ts)
  show ?case
  proof (cases "classify t")
    case None
    then have "getThemeVariant (theme_name t) = None"
      by (simp add: classify_def split: option.splits)
    moreover have "\<And>b. entry_of (ts @ [t]) b = entry_of ts b"
      using None by (simp add: entry_of_def slot_of_snoc)
    ultimately show ?thesis using snoc None
      by (simp add: groupThemes_loop_snoc groupThemes_step_def group_bases_snoc)
  next
    case (Some bv)
    obtain b v where bv: "bv = (b, v)" by (cases bv)
    have gv: "getThemeVariant (theme_name t) = Some v"
      and db: "deriveBaseThemeName (theme_name t) (Some v) = b"
      using Some bv by (auto simp: classify_def split: option.splits)
    let ?G = "map (\<lambda>b. (b, entry_of ts b)) (group_bases ts)"
    have e: "(case map_of ?G b of None \<Rightarrow> \<lparr>light = None, dark = None\<rparr> | Some e \<Rightarrow> e) = entry_of ts b"
      by (simp add: map_of_map_keys entry_of_no_base)
    have "fst (groupThemes_loop (ts @ [t]) ([], []))
          = AList.update b (entry_set (entry_of ts b) v t) ?G"
      using snoc gv db e by (simp add: groupThemes_loop_snoc groupThemes_step_def Let_def)
    also have "\<dots> = map (\<lambda>b. (b, entry_of (ts @ [t]) b)) (group_bases (ts @ [t]))"
      using Some bv by (intro loop_groups_step) simp
    finally show ?thesis .
  qed
qed

lemma expected_log_snoc: "expected_log (ts @ [t]) = expected_log ts @ log_lines ts t"
proof -
  let ?F = "\<lambda>j. log_lines (take j (ts @ [t])) ((ts @ [t]) ! j)"
  let ?G = "\<lambda>j. log_lines (take j ts) (ts ! j)"
  have m: "map ?F [0..<length ts] = map ?G [0..<length ts]"
    by (rule map_cong[OF refl]) (simp add: nth_append)
  have l: "?F (length ts) = log_lines ts t" by simp
  have "expected_log (ts @ [t]) = concat (map ?F ([0..<length ts] @ [length ts]))"
    by (simp add: expected_log_def)
  also have "\<dots> = concat (map ?F [0..<length ts]) @ ?F (length ts)"
    by (simp only: map_append concat_append list.map concat.simps append_Nil2)
  also have "\<dots> = concat (map ?G [0..<length ts]) @ log_lines ts t"
    by (simp only: m l)
  finally show ?thesis by (simp only: expected_log_def)
qed

lemma slot_of_eq_None:
  "slot_of ts b v = None \<longleftrightarrow> \<not> list_ex (\<lambda>t'. classify t' = Some (b, v)) ts"
  by (auto simp: slot_of_def last_option_def list_ex_iff filter_empty_conv)

lemma slot_of_ex_Some:
  "(\<exists>y. slot_of ts b v = Some y) \<longleftrightarrow> list_ex (\<lambda>t'. classify t' = Some (b, v)) ts"
  using slot_of_eq_None[of ts b v] by auto

lemma loop_log: "snd (groupThemes_loop ts ([], [])) = expected_log ts"
proof (induction ts rule: rev_induct)
  case Nil
  show ?case by (simp add: expected_log_def)
next
  case (snoc t ts)
  let ?G = "fst (groupThemes_loop ts ([], []))"
  show ?case
  proof (cases "classify t")
    case None
    then have "getThemeVariant (theme_name t) = None"
      by (simp add: classify_def split: option.splits)
    then show ?thesis using snoc None
      by (simp add: groupThemes_loop_snoc groupThemes_step_def expected_log_snoc log_lines_def)
  next
    case (Some bv)
    obtain b v where bv: "bv = (b, v)" by (cases bv)
    have gv: "getThemeVariant (theme_name t) = Some v"
      and db: "deriveBaseThemeName (theme_name t) (Some v) = b"
      using Some bv by (auto simp: classify_def split: option.splits)
    have e: "(case map_of ?G b of None \<Rightarrow> \<lparr>light = None, dark = None\<rparr> | Some e \<Rightarrow> e) = entry_of ts b"
      by (simp add: loop_groups map_of_map_keys entry_of_no_base)
    have "snd (groupThemes_loop (ts @ [t]) ([], []))
          = (if slot_of ts b v \<noteq> None then expected_log ts @ [duplicate_message v b]
             else expected_log ts)"
      using snoc gv db e
      by (simp add: groupThemes_loop_snoc groupThemes_step_def Let_def entry_get_entry_of)
    then show ?thesis using Some bv
      by (simp add: expected_log_snoc log_lines_def slot_of_ex_Some)
  qed
qed

lemma base_has_slot:
  assumes "b \<in> set (group_bases ts)"
  shows "slot_of ts b Light \<noteq> None \<or> slot_of ts b Dark \<noteq> None"
proof -
  from assms obtain t v where "t \<in> set ts" "classify t = Some (b, v)"
    by (auto simp: set_group_bases)
  then have "slot_of ts b v \<noteq> None"
    by (auto simp: slot_of_eq_None list_ex_iff)
  then show ?thesis by (cases v) auto
qed

lemma groupThemes_eq: "groupThemes ts = map (group_of ts) (group_bases ts)"
proof (cases "ts = []")
  case True
  then show ?thesis
    by (simp add: groupThemes_def groupThemes_run_def group_bases_def classified_bases_def
        first_seen_def)
next
  case False
  have "filter (\<lambda>(base, pair). light pair \<noteq> None \<or> dark pair \<noteq> None)
          (map (\<lambda>b. (b, entry_of ts b)) (group_bases ts))
        = map (\<lambda>b. (b, entry_of ts b)) (group_bases ts)"
    using base_has_slot[of _ ts] by (simp add: filter_id_conv entry_of_def)
  then show ?thesis using False
    by (simp add: groupThemes_def groupThemes_run_def Let_def collect_groups_def loop_groups
        createThemeGroup_def group_of_def entry_of_def comp_def)
qed

lemma groupThemes_log_eq: "groupThemes_log ts = expected_log ts"
  by (cases "ts = []")
     (simp_all add: groupThemes_log_def groupThemes_run_def Let_def loop_log expected_log_def)

lemma deriveBaseThemeName_variant:
  "deriveBaseThemeName nm v = deriveBaseThemeName nm v'"
  by (simp add: deriveBaseThemeName_def)

lemma in_groupThemes:
  "g \<in> set (groupThemes ts) \<longleftrightarrow> (\<exists>b\<in>set (group_bases ts). g = group_of ts b)"
  by (auto simp: groupThemes_eq)

lemma slot_group_of [simp]: "slot v (group_of ts b) = slot_of ts b v"
  by (cases v) (simp_all add: group_of_def)

lemma name_group_of [simp]: "name (group_of ts b) = b"
  by (simp add: group_of_def)

lemma groupThemes_slot:
  assumes "g \<in> set (groupThemes ts)" "slot v g = Some t"
  shows "t \<in> set ts \<and> getThemeVariant (theme_name t) = Some v
         \<and> deriveBaseThemeName (theme_name t) (Some v) = name g"
proof -
  from assms(1) obtain b where b: "b \<in> set (group_bases ts)" "g = group_of ts b"
    by (auto simp: in_groupThemes)
  with assms(2) have "slot_of ts b v = Some t" by simp
  then have "t \<in> set ts \<and> classify t = Some (b, v)" by (rule slot_of_Some)
  then show ?thesis using b by (simp add: classify_eq_Some)
qed

lemma groupThemes_has_group:
  assumes "t \<in> set ts" "getThemeVariant (theme_name t) = Some v"
  shows "\<exists>g\<in>set (groupThemes ts). name g = deriveBaseThemeName (theme_name t) (Some v)
           \<and> slot v g = slot_of ts (deriveBaseThemeName (theme_name t) (Some v)) v
           \<and> slot v g \<noteq> None"
proof -
  let ?b = "deriveBaseThemeName (theme_name t) (Some v)"
  have c: "classify t = Some (?b, v)" using assms(2) by (simp add: classify_eq_Some)
  then have "?b \<in> set (group_bases ts)" using assms(1) by (auto simp: set_group_bases)
  then have "group_of ts ?b \<in> set (groupThemes ts)" by (auto simp: in_groupThemes)
  moreover have "slot_of ts ?b v \<noteq> None"
    using c assms(1) by (auto simp: slot_of_eq_None list_ex_iff)
  ultimately show ?thesis by (intro bexI[of _ "group_of ts ?b"]) simp_all
qed

lemma distinct_group_names: "distinct (map name (groupThemes ts))"
  by (simp add: groupThemes_eq comp_def)

lemma group_names: "map name (groupThemes ts) = group_bases ts"
  by (simp add: groupThemes_eq comp_def)

lemma groupThemes_unique_name:
  assumes "g \<in> set (groupThemes ts)" "h \<in> set (groupThemes ts)" "name g = name h"
  shows "g = h"
  using assms by (auto simp: in_groupThemes)

lemma first_index_snoc:
  "first_index (xs @ [x]) a =
     (if a \<in> set xs then first_index xs a else if a = x then length xs else Suc (length xs))"
  by (induction xs) (auto simp: first_index_def)

lemma first_index_less: "a \<in> set xs \<Longrightarrow> first_index xs a < length xs"
  by (induction xs) (auto simp: first_index_def)

lemma sorted_first_seen:
  "sorted_wrt (\<lambda>a b. first_index xs a < first_index xs b) (first_seen xs)"
proof (induction xs rule: rev_induct)
  case Nil
  show ?case by (simp add: first_seen_def)
next
  case (snoc x xs)
  have "sorted_wrt (\<lambda>a b. first_index (xs @ [x]) a < first_index (xs @ [x]) b) (first_seen xs)"
    using snoc by (rule sorted_wrt_mono_rel[rotated]) (simp add: first_index_snoc)
  then show ?case
    by (auto simp: first_seen_snoc sorted_wrt_append first_index_snoc first_index_less)
qed

lemma filter_classified_slot:
  "slot_of (filter (\<lambda>t. getThemeVariant (theme_name t) \<noteq> None) ts) b v = slot_of ts b v"
proof -
  have "(\<lambda>t. getThemeVariant (theme_name t) \<noteq> None \<and> classify t = Some (b, v))
        = (\<lambda>t. classify t = Some (b, v))"
    by (auto simp: classify_eq_Some)
  then show ?thesis by (simp add: slot_of_def conj_commute)
qed

lemma filter_classified_bases:
  "group_bases (filter (\<lambda>t. getThemeVariant (theme_name t) \<noteq> None) ts) = group_bases ts"
  by (simp add: group_bases_def classified_bases_def)

lemma groupThemes_filter_classified:
  "groupThemes (filter (\<lambda>t. getThemeVariant (theme_name t) \<noteq> None) ts) = groupThemes ts"
proof -
  have "group_of (filter (\<lambda>t. getThemeVariant (theme_name t) \<noteq> None) ts) = group_of ts"
    by (rule ext) (simp only: group_of_def filter_classified_slot)
  then show ?thesis by (simp only: groupThemes_eq filter_classified_bases)
qed

lemma length_groupThemes: "length (groupThemes ts) \<le> length ts"
proof -
  have "length (groupThemes ts) = length (remdups (rev (classified_bases ts)))"
    by (simp add: groupThemes_eq group_bases_def first_seen_def)
  also have "\<dots> \<le> length (classified_bases ts)"
    using length_remdups_leq[of "rev (classified_bases ts)"] by simp
  also have "\<dots> \<le> length ts" by (simp add: classified_bases_def)
  finally show ?thesis .
qed

lemma last_wins_group:
  assumes ne: "filter (\<lambda>t. classify t = Some (b, v)) themes \<noteq> []"
  shows "\<exists>g\<in>set (groupThemes themes). name g = b
           \<and> slot v g = Some (last (filter (\<lambda>t. classify t = Some (b, v)) themes))
           \<and> (\<forall>h\<in>set (groupThemes themes). name h = b \<longrightarrow> h = g)"
proof -
  let ?cs = "filter (\<lambda>t. classify t = Some (b, v)) themes"
  from ne have "\<exists>t\<in>set themes. classify t = Some (b, v)"
    by (simp add: filter_empty_conv)
  then have "b \<in> set (group_bases themes)" unfolding set_group_bases by blast
  then have g: "group_of themes b \<in> set (groupThemes themes)"
    unfolding in_groupThemes by blast
  have s: "slot v (group_of themes b) = Some (last ?cs)"
    using ne by (simp add: slot_of_def last_option_def)
  have u: "\<forall>h\<in>set (groupThemes themes). name h = b \<longrightarrow> h = group_of themes b"
  proof (intro ballI impI)
    fix h assume "h \<in> set (groupThemes themes)" "name h = b"
    then show "h = group_of themes b"
      by (intro groupThemes_unique_name[OF _ g]) simp_all
  qed
  have n: "name (group_of themes b) = b" by simp
  from g n s u show ?thesis by blast
qed

lemma duplicate_logged:
  assumes "i < j" "j < length themes" "classify (themes ! i) = Some (b, v)"
    "classify (themes ! j) = Some (b, v)"
  shows "duplicate_message v b \<in> set (expected_log themes)"
proof -
  have "i < length (take j themes)" "take j themes ! i = themes ! i"
    using assms(1,2) by simp_all
  then have "themes ! i \<in> set (take j themes)" by (metis nth_mem)
  then have "list_ex (\<lambda>t'. classify t' = Some (b, v)) (take j themes)"
    using assms(3) unfolding list_ex_iff by blast
  then have l: "log_lines (take j themes) (themes ! j) = [duplicate_message v b]"
    using assms(4) by (simp add: log_lines_def)
  have "j \<in> set [0..<length themes]" using assms(2) by simp
  then have "set (log_lines (take j themes) (themes ! j)) \<subseteq> set (expected_log themes)"
    unfolding expected_log_def set_concat set_map by blast
  then show ?thesis using l by simp
qed

lemma sample_groups:
  "groupThemes sample_themes =
     [\<lparr>name = ''Brand'', lightTheme = Some (theme ''4'' ''Brand  light''), darkTheme = None\<rparr>,
      \<lparr>name = ''brand-DARK'', lightTheme = None,
         darkTheme = Some (theme ''3'' '' brand-DARK '')\<rparr>]"
  by code_simp

lemma sample_log:
  "groupThemes_log sample_themes =
     [skip_message ''Brand'', duplicate_message Light ''Brand'']"
  by code_simp

lemma sample_brand_lights:
  "filter (\<lambda>t. classify t = Some (''Brand'', Light)) sample_themes
     = [theme ''1'' ''Brand Light'', theme ''4'' ''Brand  light'']"
  by code_simp

section \<open>The theme grouper: properties\<close>

text \<open>
  Claim C1. \<open>getThemeVariant\<close> gives the variant light exactly when the trimmed,
  lower-cased name ends with the word \<open>light\<close>, the variant dark exactly when it ends with
  the word \<open>dark\<close>, and no variant exactly when it ends with neither; ending with a word
  means that the word is a suffix that starts the string or follows a code unit that is no
  word character. In \<open>groupThemes\<close>, every input theme with a variant has a group of its base
  name whose slot for that variant is filled, every theme in a slot has the variant of the
  slot, and a theme whose name has no variant is in no slot of any group.
\<close>

theorem groupThemes_classification:
  "(getThemeVariant nm = Some Light \<longleftrightarrow> ends_with_word ''light'' (toLowerCase (trim nm)))
   \<and> (getThemeVariant nm = Some Dark \<longleftrightarrow> ends_with_word ''dark'' (toLowerCase (trim nm)))
   \<and> (getThemeVariant nm = None \<longleftrightarrow>
        \<not> ends_with_word ''light'' (toLowerCase (trim nm))
        \<and> \<not> ends_with_word ''dark'' (toLowerCase (trim nm)))
   \<and> (ends_with_word w s \<longleftrightarrow> (\<exists>pre. s = pre @ w \<and> (pre = [] \<or> \<not> is_word_char (last pre))))
   \<and> (\<forall>t\<in>set themes. \<forall>v. getThemeVariant (theme_name t) = Some v \<longrightarrow>
          (\<exists>g\<in>set (groupThemes themes). slot v g \<noteq> None
              \<and> name g = deriveBaseThemeName (theme_name t) (Some v)))
   \<and> (\<forall>g\<in>set (groupThemes themes). \<forall>t v. slot v g = Some t \<longrightarrow>
          getThemeVariant (theme_name t) = Some v)
   \<and> (\<forall>g\<in>set (groupThemes themes). \<forall>t::TokenTheme. getThemeVariant (theme_name t) = None \<longrightarrow>
          lightTheme g \<noteq> Some t \<and> darkTheme g \<noteq> Some t)"
proof (intro conjI)
  show l: "getThemeVariant nm = Some Light \<longleftrightarrow> ends_with_word ''light'' (toLowerCase (trim nm))"
    by (rule getThemeVariant_Light)
  show d: "getThemeVariant nm = Some Dark \<longleftrightarrow> ends_with_word ''dark'' (toLowerCase (trim nm))"
    by (rule getThemeVariant_Dark)
  show "getThemeVariant nm = None \<longleftrightarrow>
        \<not> ends_with_word ''light'' (toLowerCase (trim nm))
        \<and> \<not> ends_with_word ''dark'' (toLowerCase (trim nm))"
    using l d by (cases "getThemeVariant nm" rule: option.exhaust[case_names None Some])
      (auto, metis ThemeVariant.exhaust)
  show "ends_with_word w s \<longleftrightarrow> (\<exists>pre. s = pre @ w \<and> (pre = [] \<or> \<not> is_word_char (last pre)))"
    by (rule ends_with_word_iff)
  show "\<forall>t\<in>set themes. \<forall>v. getThemeVariant (theme_name t) = Some v \<longrightarrow>
          (\<exists>g\<in>set (groupThemes themes). slot v g \<noteq> None
              \<and> name g = deriveBaseThemeName (theme_name t) (Some v))"
    using groupThemes_has_group by blast
  show "\<forall>g\<in>set (groupThemes themes). \<forall>t v. slot v g = Some t \<longrightarrow>
          getThemeVariant (theme_name t) = Some v"
    using groupThemes_slot by blast
  show "\<forall>g\<in>set (groupThemes themes). \<forall>t::TokenTheme. getThemeVariant (theme_name t) = None \<longrightarrow>
          lightTheme g \<noteq> Some t \<and> darkTheme g \<noteq> Some t"
  proof (intro ballI allI impI)
    fix g and t :: TokenTheme
    assume g: "g \<in> set (groupThemes themes)" and n: "getThemeVariant (theme_name t) = None"
    show "lightTheme g \<noteq> Some t \<and> darkTheme g \<noteq> Some t"
      using groupThemes_slot[OF g, of Light t] groupThemes_slot[OF g, of Dark t] n by auto
  qed
qed

text \<open>The statement of C1 at \<open>sample_themes\<close> and three of its names.\<close>

theorem groupThemes_classification_witness:
  "getThemeVariant ''Brand Light'' = Some Light
   \<and> ends_with_word ''light'' (toLowerCase (trim ''Brand Light''))
   \<and> getThemeVariant '' brand-DARK '' = Some Dark
   \<and> ends_with_word ''dark'' (toLowerCase (trim '' brand-DARK ''))
   \<and> getThemeVariant ''Brand'' = None
   \<and> \<not> ends_with_word ''light'' (toLowerCase (trim ''Brand''))
   \<and> theme ''1'' ''Brand Light'' \<in> set sample_themes
   \<and> (\<exists>g\<in>set (groupThemes sample_themes). slot Light g \<noteq> None \<and> name g = ''Brand'')
   \<and> groupThemes sample_themes \<noteq> []
   \<and> getThemeVariant (theme_name (theme ''4'' ''Brand  light'')) = Some Light"
proof -
  have a: "getThemeVariant ''Brand Light'' = Some Light" by code_simp
  have b: "getThemeVariant '' brand-DARK '' = Some Dark" by code_simp
  have c: "getThemeVariant ''Brand'' = None" by code_simp
  have m: "theme ''1'' ''Brand Light'' \<in> set sample_themes" by (simp add: sample_themes_def)
  have n: "theme_name (theme ''1'' ''Brand Light'') = ''Brand Light''" by (simp add: theme_def)
  have d: "deriveBaseThemeName ''Brand Light'' (Some Light) = ''Brand''" by code_simp
  have g: "hd (groupThemes sample_themes) \<in> set (groupThemes sample_themes)"
    "slot Light (hd (groupThemes sample_themes)) = Some (theme ''4'' ''Brand  light'')"
    by (simp_all add: sample_groups)
  note T1 = groupThemes_classification[where nm = "''Brand Light''" and themes = sample_themes]
  note T2 = groupThemes_classification[where nm = "'' brand-DARK ''" and themes = sample_themes]
  note T3 = groupThemes_classification[where nm = "''Brand''" and themes = sample_themes]
  have a': "ends_with_word ''light'' (toLowerCase (trim ''Brand Light''))"
    using T1[THEN conjunct1] a by simp
  have b': "ends_with_word ''dark'' (toLowerCase (trim '' brand-DARK ''))"
    using T2[THEN conjunct2, THEN conjunct1] b by simp
  have c': "\<not> ends_with_word ''light'' (toLowerCase (trim ''Brand''))"
    using T3[THEN conjunct2, THEN conjunct2, THEN conjunct1] c by simp
  have e: "\<exists>g\<in>set (groupThemes sample_themes). slot Light g \<noteq> None \<and> name g = ''Brand''"
    using T1[THEN conjunct2, THEN conjunct2, THEN conjunct2, THEN conjunct2, THEN conjunct1,
        rule_format, OF m, of Light] a n d by simp
  have f: "getThemeVariant (theme_name (theme ''4'' ''Brand  light'')) = Some Light"
    using T1[THEN conjunct2, THEN conjunct2, THEN conjunct2, THEN conjunct2, THEN conjunct2,
        THEN conjunct1, rule_format, OF g] .
  have h: "groupThemes sample_themes \<noteq> []" by (simp add: sample_groups)
  from a a' b b' c c' m e h f show ?thesis by blast
qed

text \<open>
  Claim C4. When one or more themes of the input (so also when two or more) have the base
  name \<open>b\<close> and the variant \<open>v\<close>, the one group named \<open>b\<close> holds in its slot for \<open>v\<close> the last
  of them in input order. The lines \<open>groupThemes\<close> logs are, theme by theme in input order,
  those of \<open>log_lines\<close>: a theme whose base name and variant an earlier theme has, and which
  therefore replaces it, adds the duplicate warning for that variant and base name. So
  every replacement comes with its warning in the log.
\<close>

theorem groupThemes_last_wins:
  "(\<forall>b v. filter (\<lambda>t. classify t = Some (b, v)) themes \<noteq> [] \<longrightarrow>
        (\<exists>g\<in>set (groupThemes themes). name g = b
           \<and> slot v g = Some (last (filter (\<lambda>t. classify t = Some (b, v)) themes))
           \<and> (\<forall>h\<in>set (groupThemes themes). name h = b \<longrightarrow> h = g)))
   \<and> groupThemes_log themes
       = concat (map (\<lambda>j. log_lines (take j themes) (themes ! j)) [0..<length themes])
   \<and> (\<forall>i j b v. i < j \<and> j < length themes \<and> classify (themes ! i) = Some (b, v)
          \<and> classify (themes ! j) = Some (b, v) \<longrightarrow>
          duplicate_message v b \<in> set (groupThemes_log themes))"
proof (intro conjI allI impI)
  fix b v
  assume "filter (\<lambda>t. classify t = Some (b, v)) themes \<noteq> []"
  then show "\<exists>g\<in>set (groupThemes themes). name g = b
           \<and> slot v g = Some (last (filter (\<lambda>t. classify t = Some (b, v)) themes))
           \<and> (\<forall>h\<in>set (groupThemes themes). name h = b \<longrightarrow> h = g)"
    by (rule last_wins_group)
next
  show "groupThemes_log themes
       = concat (map (\<lambda>j. log_lines (take j themes) (themes ! j)) [0..<length themes])"
    by (simp only: groupThemes_log_eq expected_log_def)
next
  fix i j b v
  assume "i < j \<and> j < length themes \<and> classify (themes ! i) = Some (b, v)
          \<and> classify (themes ! j) = Some (b, v)"
  then have "duplicate_message v b \<in> set (expected_log themes)"
    by (intro duplicate_logged[of i j]) simp_all
  then show "duplicate_message v b \<in> set (groupThemes_log themes)"
    by (simp only: groupThemes_log_eq)
qed

text \<open>
  The statement of C4 at \<open>sample_themes\<close>: the themes 1 and 4 are both light themes of
  \<open>Brand\<close>; the slot holds theme 4 and the warning is logged.
\<close>

theorem groupThemes_last_wins_witness:
  "filter (\<lambda>t. classify t = Some (''Brand'', Light)) sample_themes
     = [theme ''1'' ''Brand Light'', theme ''4'' ''Brand  light'']
   \<and> (\<exists>g\<in>set (groupThemes sample_themes). name g = ''Brand''
         \<and> slot Light g = Some (theme ''4'' ''Brand  light''))
   \<and> (0::nat) < 3 \<and> 3 < length sample_themes
   \<and> classify (sample_themes ! 0) = Some (''Brand'', Light)
   \<and> classify (sample_themes ! 3) = Some (''Brand'', Light)
   \<and> duplicate_message Light ''Brand'' \<in> set (groupThemes_log sample_themes)
   \<and> groupThemes_log sample_themes = [skip_message ''Brand'', duplicate_message Light ''Brand'']"
proof -
  note T = groupThemes_last_wins[where themes = sample_themes]
  have ne: "filter (\<lambda>t. classify t = Some (''Brand'', Light)) sample_themes \<noteq> []"
    by (simp add: sample_brand_lights)
  have a: "\<exists>g\<in>set (groupThemes sample_themes). name g = ''Brand''
         \<and> slot Light g = Some (theme ''4'' ''Brand  light'')"
    using T[THEN conjunct1, rule_format, OF ne] by (simp add: sample_brand_lights) blast
  have i: "(0::nat) < 3 \<and> 3 < length sample_themes
      \<and> classify (sample_themes ! 0) = Some (''Brand'', Light)
      \<and> classify (sample_themes ! 3) = Some (''Brand'', Light)"
    by code_simp
  have d: "duplicate_message Light ''Brand'' \<in> set (groupThemes_log sample_themes)"
    using T[THEN conjunct2, THEN conjunct2, rule_format, OF i] .
  from sample_brand_lights a i d sample_log show ?thesis by blast
qed

text \<open>
  Claim C8. The base name is the first white-space-delimited token of the trimmed name: the
  code units of the trimmed name before its first white space. A group that holds a theme
  has the base name of that theme as its name, and every input theme with a variant has a
  group named by its base name (\<open>Brand Light\<close> and \<open>Brand Dark\<close> both give \<open>Brand\<close>). A theme
  whose name has no variant contributes to no group: leaving such themes out of the input
  does not change the result, and none of them is in a slot.
\<close>

theorem groupThemes_base_name:
  "deriveBaseThemeName nm v = takeWhile (\<lambda>c. \<not> is_space c) (trim nm)
   \<and> (\<forall>g\<in>set (groupThemes themes). \<forall>t v. slot v g = Some t \<longrightarrow>
         name g = takeWhile (\<lambda>c. \<not> is_space c) (trim (theme_name t)))
   \<and> (\<forall>t\<in>set themes. getThemeVariant (theme_name t) \<noteq> None \<longrightarrow>
         (\<exists>g\<in>set (groupThemes themes).
            name g = takeWhile (\<lambda>c. \<not> is_space c) (trim (theme_name t))))
   \<and> groupThemes (filter (\<lambda>t. getThemeVariant (theme_name t) \<noteq> None) themes)
       = groupThemes themes
   \<and> (\<forall>g\<in>set (groupThemes themes). \<forall>t::TokenTheme. getThemeVariant (theme_name t) = None \<longrightarrow>
         lightTheme g \<noteq> Some t \<and> darkTheme g \<noteq> Some t)"
proof (intro conjI)
  show "deriveBaseThemeName nm v = takeWhile (\<lambda>c. \<not> is_space c) (trim nm)"
    by (rule deriveBaseThemeName_first_token)
  show "\<forall>g\<in>set (groupThemes themes). \<forall>t v. slot v g = Some t \<longrightarrow>
         name g = takeWhile (\<lambda>c. \<not> is_space c) (trim (theme_name t))"
  proof (intro ballI allI impI)
    fix g t v assume "g \<in> set (groupThemes themes)" "slot v g = Some t"
    from groupThemes_slot[OF this]
    have "name g = deriveBaseThemeName (theme_name t) (Some v)" by simp
    then show "name g = takeWhile (\<lambda>c. \<not> is_space c) (trim (theme_name t))"
      by (simp only: deriveBaseThemeName_first_token)
  qed
  show "\<forall>t\<in>set themes. getThemeVariant (theme_name t) \<noteq> None \<longrightarrow>
         (\<exists>g\<in>set (groupThemes themes).
            name g = takeWhile (\<lambda>c. \<not> is_space c) (trim (theme_name t)))"
  proof (intro ballI impI)
    fix t assume t: "t \<in> set themes" "getThemeVariant (theme_name t) \<noteq> None"
    then obtain v where "getThemeVariant (theme_name t) = Some v" by auto
    from groupThemes_has_group[OF t(1) this]
    show "\<exists>g\<in>set (groupThemes themes).
            name g = takeWhile (\<lambda>c. \<not> is_space c) (trim (theme_name t))"
      by (auto simp: deriveBaseThemeName_first_token)
  qed
  show "groupThemes (filter (\<lambda>t. getThemeVariant (theme_name t) \<noteq> None) themes)
       = groupThemes themes"
    by (rule groupThemes_filter_classified)
  show "\<forall>g\<in>set (groupThemes themes). \<forall>t::TokenTheme. getThemeVariant (theme_name t) = None \<longrightarrow>
          lightTheme g \<noteq> Some t \<and> darkTheme g \<noteq> Some t"
  proof (intro ballI allI impI)
    fix g and t :: TokenTheme
    assume g: "g \<in> set (groupThemes themes)" and n: "getThemeVariant (theme_name t) = None"
    show "lightTheme g \<noteq> Some t \<and> darkTheme g \<noteq> Some t"
      using groupThemes_slot[OF g, of Light t] groupThemes_slot[OF g, of Dark t] n by auto
  qed
qed

text \<open>The statement of C8 at the names of the claim and at \<open>sample_themes\<close>.\<close>

theorem groupThemes_base_name_witness:
  "deriveBaseThemeName ''Brand Light'' (Some Light) = ''Brand''
   \<and> deriveBaseThemeName ''Brand Dark'' (Some Dark) = ''Brand''
   \<and> takeWhile (\<lambda>c. \<not> is_space c) (trim ''  Brand Light '') = ''Brand''
   \<and> deriveBaseThemeName ''  Brand Light '' None = ''Brand''
   \<and> theme ''3'' '' brand-DARK '' \<in> set sample_themes
   \<and> getThemeVariant (theme_name (theme ''3'' '' brand-DARK '')) \<noteq> None
   \<and> (\<exists>g\<in>set (groupThemes sample_themes). name g = ''brand-DARK'')
   \<and> getThemeVariant (theme_name (theme ''2'' ''Brand'')) = None
   \<and> groupThemes [theme ''2'' ''Brand''] = []
   \<and> groupThemes [theme ''1'' ''Brand Light'', theme ''3'' '' brand-DARK '',
        theme ''4'' ''Brand  light''] = groupThemes sample_themes
   \<and> name (hd (groupThemes sample_themes)) = ''Brand''"
proof -
  note T = groupThemes_base_name[where themes = sample_themes]
  have a: "deriveBaseThemeName ''Brand Light'' (Some Light) = ''Brand''"
    "deriveBaseThemeName ''Brand Dark'' (Some Dark) = ''Brand''"
    "takeWhile (\<lambda>c. \<not> is_space c) (trim ''  Brand Light '') = ''Brand''"
    by code_simp+
  have b: "deriveBaseThemeName ''  Brand Light '' None = ''Brand''"
    using T[where nm = "''  Brand Light ''" and v = None, THEN conjunct1] a(3) by simp
  have m: "theme ''3'' '' brand-DARK '' \<in> set sample_themes" by (simp add: sample_themes_def)
  have v: "getThemeVariant (theme_name (theme ''3'' '' brand-DARK '')) \<noteq> None" by code_simp
  have tk: "takeWhile (\<lambda>c. \<not> is_space c) (trim (theme_name (theme ''3'' '' brand-DARK '')))
            = ''brand-DARK''" by code_simp
  have g: "\<exists>g\<in>set (groupThemes sample_themes). name g = ''brand-DARK''"
    using T[where nm = "[]" and v = None, THEN conjunct2, THEN conjunct2, THEN conjunct1,
        rule_format, OF m v] tk by simp
  have u: "getThemeVariant (theme_name (theme ''2'' ''Brand'')) = None" by code_simp
  have e: "groupThemes [theme ''2'' ''Brand''] = []" by code_simp
  have f: "filter (\<lambda>t. getThemeVariant (theme_name t) \<noteq> None) sample_themes
           = [theme ''1'' ''Brand Light'', theme ''3'' '' brand-DARK '',
              theme ''4'' ''Brand  light'']" by code_simp
  have h: "groupThemes [theme ''1'' ''Brand Light'', theme ''3'' '' brand-DARK '',
        theme ''4'' ''Brand  light''] = groupThemes sample_themes"
    using T[where nm = "[]" and v = None, THEN conjunct2, THEN conjunct2, THEN conjunct2,
        THEN conjunct1] f by simp
  have s: "hd (groupThemes sample_themes) \<in> set (groupThemes sample_themes)"
    "slot Light (hd (groupThemes sample_themes)) = Some (theme ''4'' ''Brand  light'')"
    by (simp_all add: sample_groups)
  have tk4: "takeWhile (\<lambda>c. \<not> is_space c) (trim (theme_name (theme ''4'' ''Brand  light'')))
            = ''Brand''" by code_simp
  have n: "name (hd (groupThemes sample_themes)) = ''Brand''"
    using T[where nm = "[]" and v = None, THEN conjunct2, THEN conjunct1, rule_format, OF s] tk4
    by simp
  from a b m v g u e h n show ?thesis by blast
qed

text \<open>
  Claim C9. The names of the groups returned are the base names of the themes that have a
  variant, each once, in the order of their first occurrence in the input among those
  themes (a theme without a variant is skipped before its base name is derived): a group
  stands before another exactly as the first occurrence of its name stands before that of
  the other. No group has both slots empty, and the empty input gives the empty list.
\<close>

theorem groupThemes_order:
  "map name (groupThemes themes) = first_seen (classified_bases themes)
   \<and> sorted_wrt (\<lambda>g h. first_index (classified_bases themes) (name g)
                        < first_index (classified_bases themes) (name h)) (groupThemes themes)
   \<and> distinct (map name (groupThemes themes))
   \<and> set (map name (groupThemes themes)) = set (classified_bases themes)
   \<and> (\<forall>g\<in>set (groupThemes themes). lightTheme g \<noteq> None \<or> darkTheme g \<noteq> None)
   \<and> groupThemes [] = []"
proof (intro conjI)
  show n: "map name (groupThemes themes) = first_seen (classified_bases themes)"
    by (simp add: group_names group_bases_def)
  have "sorted_wrt (\<lambda>a b. first_index (classified_bases themes) a
                        < first_index (classified_bases themes) b) (map name (groupThemes themes))"
    unfolding n by (rule sorted_first_seen)
  then show "sorted_wrt (\<lambda>g h. first_index (classified_bases themes) (name g)
                        < first_index (classified_bases themes) (name h)) (groupThemes themes)"
    by (simp add: sorted_wrt_map)
  show "distinct (map name (groupThemes themes))" by (rule distinct_group_names)
  show "set (map name (groupThemes themes)) = set (classified_bases themes)"
    unfolding n by simp
  show "\<forall>g\<in>set (groupThemes themes). lightTheme g \<noteq> None \<or> darkTheme g \<noteq> None"
  proof
    fix g assume "g \<in> set (groupThemes themes)"
    then obtain b where b: "b \<in> set (group_bases themes)" "g = group_of themes b"
      by (auto simp: in_groupThemes)
    from base_has_slot[OF b(1)] show "lightTheme g \<noteq> None \<or> darkTheme g \<noteq> None"
      unfolding b(2) by (simp add: group_of_def)
  qed
  show "groupThemes [] = []" by (simp add: groupThemes_def groupThemes_run_def)
qed

text \<open>
  The statement of C9 at \<open>sample_themes\<close>, and at a list whose first theme, \<open>B\<close>, has no
  variant: it is skipped, so the group \<open>B\<close> comes after the group \<open>A\<close>.
\<close>

theorem groupThemes_order_witness:
  "classified_bases sample_themes = [''Brand'', ''brand-DARK'', ''Brand'']
   \<and> map name (groupThemes sample_themes) = [''Brand'', ''brand-DARK'']
   \<and> first_index (classified_bases sample_themes) ''Brand'' = 0
   \<and> first_index (classified_bases sample_themes) ''brand-DARK'' = 1
   \<and> hd (groupThemes sample_themes) \<in> set (groupThemes sample_themes)
   \<and> lightTheme (hd (groupThemes sample_themes)) \<noteq> None
   \<and> groupThemes [] = []
   \<and> map name (groupThemes [theme ''1'' ''B'', theme ''2'' ''A Light'', theme ''3'' ''B Light''])
       = [''A'', ''B'']"
proof -
  note T = groupThemes_order[where themes = sample_themes]
  have c': "classified_bases [theme ''1'' ''B'', theme ''2'' ''A Light'', theme ''3'' ''B Light'']
            = [''A'', ''B'']" by code_simp
  have fs': "first_seen [''A'', ''B''] = [''A'', ''B'']" by code_simp
  have n': "map name (groupThemes [theme ''1'' ''B'', theme ''2'' ''A Light'',
              theme ''3'' ''B Light'']) = [''A'', ''B'']"
    using groupThemes_order[where
        themes = "[theme ''1'' ''B'', theme ''2'' ''A Light'', theme ''3'' ''B Light'']",
        THEN conjunct1] c' fs' by simp
  have c: "classified_bases sample_themes = [''Brand'', ''brand-DARK'', ''Brand'']"
    by code_simp
  have fs: "first_seen [''Brand'', ''brand-DARK'', ''Brand''] = [''Brand'', ''brand-DARK'']"
    by code_simp
  have n: "map name (groupThemes sample_themes) = [''Brand'', ''brand-DARK'']"
    using T[THEN conjunct1] c fs by simp
  have fi: "first_index (classified_bases sample_themes) ''Brand'' = 0"
    "first_index (classified_bases sample_themes) ''brand-DARK'' = 1"
    unfolding c by code_simp+
  have s: "hd (groupThemes sample_themes) \<in> set (groupThemes sample_themes)"
    by (simp add: sample_groups)
  have d: "darkTheme (hd (groupThemes sample_themes)) = None" by (simp add: sample_groups)
  have l: "lightTheme (hd (groupThemes sample_themes)) \<noteq> None"
    using T[THEN conjunct2, THEN conjunct2, THEN conjunct2, THEN conjunct2, THEN conjunct1,
        rule_format, OF s] d by simp
  have e: "groupThemes [] = []"
    using T[THEN conjunct2, THEN conjunct2, THEN conjunct2, THEN conjunct2, THEN conjunct2] .
  from c n fi s l e n' show ?thesis by blast
qed

text \<open>
  Claim C10. Every theme in the light (dark) slot of a returned group is an element of the
  input, has the variant light (dark), and has the name of the group as its base name. The
  number of groups is at most the number of input themes.
\<close>

theorem groupThemes_stored_themes:
  "(\<forall>g\<in>set (groupThemes themes). \<forall>t.
       (lightTheme g = Some t \<longrightarrow> t \<in> set themes \<and> getThemeVariant (theme_name t) = Some Light
           \<and> name g = deriveBaseThemeName (theme_name t) (Some Light))
     \<and> (darkTheme g = Some t \<longrightarrow> t \<in> set themes \<and> getThemeVariant (theme_name t) = Some Dark
           \<and> name g = deriveBaseThemeName (theme_name t) (Some Dark)))
   \<and> length (groupThemes themes) \<le> length themes"
proof (intro conjI ballI allI impI)
  fix g t assume g: "g \<in> set (groupThemes themes)"
  { assume "lightTheme g = Some t"
    then have "slot Light g = Some t" by simp
    from groupThemes_slot[OF g this]
    show "t \<in> set themes" "getThemeVariant (theme_name t) = Some Light"
      "name g = deriveBaseThemeName (theme_name t) (Some Light)" by simp_all }
  { assume "darkTheme g = Some t"
    then have "slot Dark g = Some t" by simp
    from groupThemes_slot[OF g this]
    show "t \<in> set themes" "getThemeVariant (theme_name t) = Some Dark"
      "name g = deriveBaseThemeName (theme_name t) (Some Dark)" by simp_all }
next
  show "length (groupThemes themes) \<le> length themes" by (rule length_groupThemes)
qed

text \<open>The statement of C10 at \<open>sample_themes\<close>.\<close>

theorem groupThemes_stored_themes_witness:
  "hd (groupThemes sample_themes) \<in> set (groupThemes sample_themes)
   \<and> lightTheme (hd (groupThemes sample_themes)) = Some (theme ''4'' ''Brand  light'')
   \<and> theme ''4'' ''Brand  light'' \<in> set sample_themes
   \<and> getThemeVariant (theme_name (theme ''4'' ''Brand  light'')) = Some Light
   \<and> name (hd (groupThemes sample_themes))
       = deriveBaseThemeName (theme_name (theme ''4'' ''Brand  light'')) (Some Light)
   \<and> last (groupThemes sample_themes) \<in> set (groupThemes sample_themes)
   \<and> darkTheme (last (groupThemes sample_themes)) = Some (theme ''3'' '' brand-DARK '')
   \<and> getThemeVariant (theme_name (theme ''3'' '' brand-DARK '')) = Some Dark
   \<and> length (groupThemes sample_themes) = 2 \<and> length sample_themes = 4"
proof -
  note T = groupThemes_stored_themes[where themes = sample_themes]
  have s: "hd (groupThemes sample_themes) \<in> set (groupThemes sample_themes)"
    and l: "lightTheme (hd (groupThemes sample_themes)) = Some (theme ''4'' ''Brand  light'')"
    and s': "last (groupThemes sample_themes) \<in> set (groupThemes sample_themes)"
    and d: "darkTheme (last (groupThemes sample_themes)) = Some (theme ''3'' '' brand-DARK '')"
    and n: "length (groupThemes sample_themes) = 2"
    by (simp_all add: sample_groups)
  have a: "theme ''4'' ''Brand  light'' \<in> set sample_themes
     \<and> getThemeVariant (theme_name (theme ''4'' ''Brand  light'')) = Some Light
     \<and> name (hd (groupThemes sample_themes))
       = deriveBaseThemeName (theme_name (theme ''4'' ''Brand  light'')) (Some Light)"
    using T[THEN conjunct1, rule_format, OF s, THEN conjunct1, rule_format, OF l] .
  have b: "getThemeVariant (theme_name (theme ''3'' '' brand-DARK '')) = Some Dark"
    using T[THEN conjunct1, rule_format, OF s', THEN conjunct2, rule_format, OF d] by simp
  have m: "length sample_themes = 4" by (simp add: sample_themes_def)
  from s l a s' d b n m show ?thesis by blast
qed

section \<open>The export orchestrator: lemmas\<close>

lemma new_Map_snoc: "new_Map (es @ [kv]) = AList.update (fst kv) (snd kv) (new_Map es)"
  by (simp add: new_Map_def)

lemma map_of_new_Map: "map_of (new_Map es) = map_of (rev es)"
proof (induction es rule: rev_induct)
  case Nil
  show ?case by (simp add: new_Map_def)
next
  case (snoc kv es)
  then show ?case by (cases kv) (simp add: new_Map_snoc update_conv')
qed

lemma value_under_snoc:
  "value_under (ts @ [t]) tid = (if token_id t = tid then Some t else value_under ts tid)"
  by (simp add: value_under_def last_option_def)

lemma map_of_byId:
  "map_of (new_Map (map (\<lambda>t. (token_id t, t)) ts)) tid = value_under ts tid"
proof (induction ts rule: rev_induct)
  case Nil
  show ?case by (simp add: new_Map_def value_under_def last_option_def)
next
  case (snoc t ts)
  then show ?case by (simp add: new_Map_snoc update_conv' value_under_snoc)
qed

lemma value_under_Some:
  "value_under ts tid = Some b \<Longrightarrow> b \<in> set ts \<and> token_id b = tid"
proof -
  assume a: "value_under ts tid = Some b"
  let ?cs = "filter (\<lambda>t. token_id t = tid) ts"
  from a have "?cs \<noteq> []" "last ?cs = b"
    by (auto simp: value_under_def last_option_def split: if_splits)
  then have "b \<in> set ?cs" using last_in_set by blast
  then show ?thesis by simp
qed

lemma value_under_None: "value_under ts tid = None \<longleftrightarrow> tid \<notin> token_id ` set ts"
  by (auto simp: value_under_def last_option_def filter_empty_conv)

lemma loop_emit_each:
  "fst (createThemeColors_loop ext tokenGroups colorsPath nameStyle
          (new_Map (map (\<lambda>t. (token_id t, t)) baseTokens))
          (new_Map (map (\<lambda>t. (token_id t, t)) darkTokens)) colorTokens tracker created)
   = created @ emit_each (\<lambda>b vs tr. createPerTokenFile ext b tokenGroups colorsPath vs tr nameStyle)
       (map (\<lambda>token. (emitted_base baseTokens token, emitted_variants darkTokens token)) colorTokens)
       tracker"
proof (induction colorTokens arbitrary: tracker created)
  case Nil
  show ?case by simp
next
  case (Cons token rest)
  show ?case
    by (simp add: Let_def Cons map_of_byId emitted_base_def emitted_variants_def
        split: option.splits)
qed

lemma stringify_marker:
  "JSON_stringify
     (JObject
        [(''info'', JObject [(''version'', JNumber 1), (''author'', JString ''xcode'')]),
         (''properties'', JObject [(''provides-namespace'', JBool True)])])
   = namespace_marker_text"
proof -
  have "show_nat 1 = ''1''" by code_simp
  then show ?thesis
    by (simp add: JSON_stringify_def namespace_marker_text_def del: show_nat.simps)
qed

lemma exportThemeGroups_files:
  "fst (exportThemeGroups runtime gs) = concat (map (\<lambda>g. fst (exportThemeGroup runtime g)) gs)"
  by (induction gs) (simp_all add: Let_def)

lemma log_all_append: "log_all (log_all l a) b = log_all l (a @ b)"
  by (simp add: log_all_def)

lemma log_log_all: "log l m = log_all l [m]"
  by (simp add: log_all_def)

lemma log_all_path:
  "path (getFile (log_all l lines)) = path (getFile l)
   \<and> file_name (getFile (log_all l lines)) = file_name (getFile l)"
  by (induction lines rule: rev_induct) (simp_all add: log_all_def log_def getFile_def)

lemma Pulsar_export_Inl:
  assumes "selected_themes sdk ctx = Inl e"
  shows "Pulsar_export sdk ext config ctx gl = Inl e"
proof -
  from assms obtain ids where ids: "themeIds ctx = Some ids" "ids \<noteq> []"
    "resolveThemes (getTokenThemes sdk) ids = Inl e"
    by (auto simp: selected_themes_def split: option.splits if_splits)
  then show ?thesis by (simp add: Pulsar_export_def Let_def)
qed

lemma Pulsar_export_Inr:
  assumes "selected_themes sdk ctx = Inr ths"
  shows "\<exists>lines. Pulsar_export sdk ext config ctx gl =
           Inr (getFile (log_all (getLogger (resolveRootPath config) gl) lines)
                # root_files ext config
                @ fst (exportThemeGroups (run_context sdk ext config ctx) (groupThemes ths)))"
proof -
  have rc: "\<lparr>ec_sdk = sdk, ec_ext = ext, ec_pulsarContext = ctx,
             ec_rootPath = resolveRootPath config, ec_config = config, ec_tokens = getTokens sdk,
             ec_tokenGroups = getTokenGroups sdk,
             ec_colorTokens = fst (filterExcludedCollections config
                 (filter (\<lambda>t. tokenType t = Color) (getTokens sdk)) (getTokenCollections sdk))\<rparr>
            = run_context sdk ext config ctx"
    by (simp add: run_context_def selectColorTokens_def)
  consider (none) "themeIds ctx = None" "ths = []"
    | (empty) "themeIds ctx = Some []" "ths = []"
    | (ids) ids where "themeIds ctx = Some ids" "ids \<noteq> []"
        "resolveThemes (getTokenThemes sdk) ids = Inr ths"
    using assms by (auto simp: selected_themes_def split: option.splits if_splits)
  then show ?thesis
  proof cases
    case none
    then show ?thesis
      unfolding Pulsar_export_def Let_def
      by (simp add: rc log_all_append log_log_all root_files_def groupThemes_def[symmetric]
          del: append.simps) blast
  next
    case empty
    then show ?thesis
      unfolding Pulsar_export_def Let_def
      by (simp add: rc log_all_append log_log_all root_files_def groupThemes_def[symmetric]
          del: append.simps) blast
  next
    case ids
    then show ?thesis
      unfolding Pulsar_export_def Let_def
      by (simp add: rc log_all_append log_log_all root_files_def groupThemes_def[symmetric]
          del: append.simps) blast
  qed
qed

lemma find_theme_None:
  "find (\<lambda>t. theme_id t = i \<or> idInVersion t = i) themes = None
     \<longleftrightarrow> (\<forall>t\<in>set themes. \<not> theme_matches i t)"
  by (auto simp: find_None_iff theme_matches_def)

lemma find_theme_Some:
  "find (\<lambda>t. theme_id t = i \<or> idInVersion t = i) themes = Some t
     \<Longrightarrow> t \<in> set themes \<and> theme_matches i t"
  by (auto simp: find_Some_iff theme_matches_def)

lemma resolveThemes_Inr:
  "resolveThemes themes ids = Inr ths
     \<Longrightarrow> list_all2 (\<lambda>i t. t \<in> set themes \<and> theme_matches i t) ids ths"
proof (induction ids arbitrary: ths)
  case Nil
  then show ?case by simp
next
  case (Cons i ids)
  then show ?case
    by (auto split: option.splits sum.splits dest: find_theme_Some)
qed

lemma resolveThemes_all_found:
  "\<forall>i\<in>set ids. \<exists>t\<in>set themes. theme_matches i t
     \<Longrightarrow> \<exists>ths. resolveThemes themes ids = Inr ths"
proof (induction ids)
  case Nil
  show ?case by simp
next
  case (Cons i ids)
  then obtain ths where ths: "resolveThemes themes ids = Inr ths" by auto
  from Cons.prems have "find (\<lambda>t. theme_id t = i \<or> idInVersion t = i) themes \<noteq> None"
    unfolding find_theme_None by simp
  then obtain t where "find (\<lambda>t. theme_id t = i \<or> idInVersion t = i) themes = Some t" by auto
  then show ?case using ths by simp
qed

lemma resolveThemes_missing:
  "\<exists>i\<in>set ids. \<forall>t\<in>set themes. \<not> theme_matches i t
     \<Longrightarrow> \<exists>i\<in>set ids. (\<forall>t\<in>set themes. \<not> theme_matches i t)
           \<and> resolveThemes themes ids = Inl (Error (''Unable to find theme '' @ i))"
proof (induction ids)
  case Nil
  then show ?case by simp
next
  case (Cons i ids)
  show ?case
  proof (cases "find (\<lambda>t. theme_id t = i \<or> idInVersion t = i) themes")
    case None
    then have "\<forall>t\<in>set themes. \<not> theme_matches i t" by (simp add: find_theme_None)
    then show ?thesis using None by auto
  next
    case (Some t)
    then have "\<not> (\<forall>t\<in>set themes. \<not> theme_matches i t)"
      using find_theme_Some by blast
    with Cons.prems have "\<exists>i\<in>set ids. \<forall>t\<in>set themes. \<not> theme_matches i t" by auto
    from Cons.IH[OF this] obtain j where "j \<in> set ids" "\<forall>t\<in>set themes. \<not> theme_matches j t"
      "resolveThemes themes ids = Inl (Error (''Unable to find theme '' @ j))" by blast
    then show ?thesis using Some by auto
  qed
qed

lemma exportThemeGroup_light:
  assumes "lightTheme g = Some lt"
  shows "fst (exportThemeGroup runtime g) =
     createNameSpaceFolder (codeSafeVariableName (ec_ext runtime) (name g) pascalCase)
         (ec_rootPath runtime)
     # fst (createThemeColors (ec_sdk runtime) (ec_ext runtime) (ec_config runtime)
           (ec_pulsarContext runtime) (ec_tokens runtime) (ec_tokenGroups runtime)
           (ec_colorTokens runtime)
           (if ec_rootPath runtime \<noteq> []
            then ec_rootPath runtime @ ''/''
                   @ codeSafeVariableName (ec_ext runtime) (name g) pascalCase
            else codeSafeVariableName (ec_ext runtime) (name g) pascalCase)
           lt (darkTheme g))"
  using assms by (simp add: exportThemeGroup_def Let_def)

lemma exportThemeGroup_no_light:
  assumes "lightTheme g = None"
  shows "fst (exportThemeGroup runtime g) =
     [createNameSpaceFolder (codeSafeVariableName (ec_ext runtime) (name g) pascalCase)
         (ec_rootPath runtime)]"
  using assms by (simp add: exportThemeGroup_def Let_def)

lemma createThemeColors_files:
  "fst (createThemeColors sdk ext config ctx tokens tokenGroups colorTokens colorsPath lightTh darkTh)
   = emit_each
       (\<lambda>b vs tr. createPerTokenFile ext b tokenGroups colorsPath vs tr
           (case folderNameStyle config of Some s \<Rightarrow> s | None \<Rightarrow> kebabCase))
       (map (\<lambda>token.
           (emitted_base (computeTokensByApplyingThemes sdk tokens tokens [lightTh]) token,
            emitted_variants (computeTokensForTheme sdk tokens darkTh) token)) colorTokens)
       (newTokenNameTracker ext)"
  by (simp add: createThemeColors_def Let_def loop_emit_each computeTokensForTheme_def)

lemma emitted_base_cases:
  "(token_id token \<in> token_id ` set B \<longrightarrow>
       emitted_base B token = last (filter (\<lambda>t. token_id t = token_id token) B)
       \<and> emitted_base B token \<in> set B \<and> token_id (emitted_base B token) = token_id token)
   \<and> (token_id token \<notin> token_id ` set B \<longrightarrow> emitted_base B token = token)"
proof (cases "value_under B (token_id token)")
  case None
  then show ?thesis using value_under_None[of B "token_id token"]
    by (simp add: emitted_base_def)
next
  case (Some b)
  then have "token_id token \<in> token_id ` set B"
    using value_under_None[of B "token_id token"] by simp
  moreover have "b = last (filter (\<lambda>t. token_id t = token_id token) B)"
    using Some by (simp add: value_under_def last_option_def split: if_splits)
  ultimately show ?thesis using Some value_under_Some[OF Some]
    by (simp add: emitted_base_def)
qed

lemma emitted_variants_cases:
  "(token_id token \<in> token_id ` set D \<longrightarrow>
       emitted_variants D token = [last (filter (\<lambda>t. token_id t = token_id token) D)]
       \<and> last (filter (\<lambda>t. token_id t = token_id token) D) \<in> set D
       \<and> token_id (last (filter (\<lambda>t. token_id t = token_id token) D)) = token_id token)
   \<and> (token_id token \<notin> token_id ` set D \<longrightarrow> emitted_variants D token = [])"
proof (cases "value_under D (token_id token)")
  case None
  then show ?thesis using value_under_None[of D "token_id token"]
    by (simp add: emitted_variants_def)
next
  case (Some b)
  then have "token_id token \<in> token_id ` set D"
    using value_under_None[of D "token_id token"] by simp
  moreover have "b = last (filter (\<lambda>t. token_id t = token_id token) D)"
    using Some by (simp add: value_under_def last_option_def split: if_splits)
  ultimately show ?thesis using Some value_under_Some[OF Some]
    by (simp add: emitted_variants_def)
qed

lemma group_files_in_export:
  assumes "g \<in> set gs"
  shows "set (fst (exportThemeGroup runtime g)) \<subseteq> set (fst (exportThemeGroups runtime gs))"
  using assms by (auto simp: exportThemeGroups_files)

lemma selected_themes_of_export:
  assumes "Pulsar_export sdk ext config ctx gl = Inr files"
  shows "\<exists>ths. selected_themes sdk ctx = Inr ths"
proof (cases "selected_themes sdk ctx")
  case (Inl e)
  from Pulsar_export_Inl[OF this, of ext config gl] assms show ?thesis by simp
next
  case (Inr ths)
  then show ?thesis by blast
qed

lemma owning_collection_None:
  "owning_collection cs token = None
     \<longleftrightarrow> (\<forall>c\<in>set cs. Some (persistentId c) \<noteq> collectionId token)"
  by (auto simp: owning_collection_def find_None_iff)

lemma owning_collection_Some:
  "owning_collection cs token = Some c
     \<Longrightarrow> c \<in> set cs \<and> Some (persistentId c) = collectionId token"
  by (auto simp: owning_collection_def find_Some_iff)

lemma owning_collection_distinct:
  assumes "distinct (map persistentId cs)" "c \<in> set cs" "Some (persistentId c) = collectionId token"
  shows "owning_collection cs token = Some c"
proof (cases "owning_collection cs token")
  case None
  then show ?thesis using assms(2,3) by (auto simp: owning_collection_None)
next
  case (Some c')
  from owning_collection_Some[OF Some] have "c' \<in> set cs" "persistentId c' = persistentId c"
    using assms(3) by (auto dest: sym)
  then have "c' = c" using assms(1,2) by (meson distinct_map inj_onD)
  then show ?thesis using Some by simp
qed

lemma sample_selected:
  "selected_themes sample_sdk sample_selection
     = Inr [theme ''1'' ''Brand Light'', theme ''5'' ''Brand Dark'', theme ''3'' '' brand-DARK '']"
  by code_simp

lemma sample_selected_groups:
  "groupThemes [theme ''1'' ''Brand Light'', theme ''5'' ''Brand Dark'', theme ''3'' '' brand-DARK '']
     = [both_themes, dark_only]"
  by code_simp

lemma sample_color_files:
  "color_files (run_context sample_sdk sample_ext sample_config sample_selection) both_themes
     (theme ''1'' ''Brand Light'')
   = [createTextFile ''./Colors.xcassets/Brand/t1.colorset'' ''Contents.json'' ''#111@1 dark #111@5'',
      createTextFile ''./Colors.xcassets/Brand/t4.colorset'' ''Contents.json'' ''#444'',
      createTextFile ''./Colors.xcassets/Brand/t5.colorset'' ''Contents.json'' ''#555@1'']"
  by code_simp

lemma sample_root: "resolveRootPath sample_config = ''Colors.xcassets''"
  by code_simp

lemma sample_generates_root: "generateRootCatalog sample_config"
  by (simp add: sample_config_def)

lemma sample_value_facts:
  "token_id (sample_token 0) \<in> token_id ` set sample_light_values"
  "token_id (sample_token 3) \<notin> token_id ` set sample_light_values"
  "token_id (sample_token 0) \<in> token_id ` set sample_dark_values"
  "token_id (sample_token 3) \<notin> token_id ` set sample_dark_values"
  "last (filter (\<lambda>t. token_id t = token_id (sample_token 0)) sample_light_values)
     = (sample_token 0)\<lparr>token_value := ''#111@1''\<rparr>"
  "last (filter (\<lambda>t. token_id t = token_id (sample_token 0)) sample_dark_values)
     = (sample_token 0)\<lparr>token_value := ''#111@5''\<rparr>"
  by code_simp+

lemma sample_exclusion_facts:
  "excludeCollectionsInPipelines sample_config \<and> excludedCollections sample_config \<noteq> []"
  "sample_color_tokens = [sample_token 0, sample_token 1, sample_token 3, sample_token 4]"
  "filter (\<lambda>token. \<not> in_excluded_collection sample_config sample_collections token)
      sample_color_tokens = [sample_token 0, sample_token 3, sample_token 4]"
  "owning_collection sample_collections (sample_token 1)
     = Some \<lparr>persistentId = ''c2'', collection_name = '' Internal ''\<rparr>"
  "trim (toLowerCase '' Internal '') \<in> excluded_names sample_config"
  "sample_token 4 \<in> set sample_color_tokens"
  "\<forall>c\<in>set sample_collections. Some (persistentId c) \<noteq> collectionId (sample_token 4)"
  "distinct (map persistentId sample_collections)"
  by code_simp+

section \<open>The export orchestrator: properties\<close>

text \<open>
  Claim C2. A run that returns returns the list of all the files it made: the log file
  first, then the root catalog file when the configuration asks for it, then the files of
  the theme groups in the order of the groups. So the log file is in the list, the root
  catalog file is when enabled, and for every theme group its namespace marker file and
  all the colour-set files of its light theme are.
\<close>

theorem export_returns_all_files:
  assumes "Pulsar_export sdk ext config ctx gl = Inr files"
  shows "\<exists>ths lines.
           selected_themes sdk ctx = Inr ths
           \<and> files = getFile (log_all (getLogger (resolveRootPath config) gl) lines)
                # root_files ext config
                @ concat (map (\<lambda>g. fst (exportThemeGroup (run_context sdk ext config ctx) g))
                     (groupThemes ths))
           \<and> getFile (log_all (getLogger (resolveRootPath config) gl) lines) \<in> set files
           \<and> (generateRootCatalog config \<longrightarrow>
                 createCatalogRootFile ext (resolveRootPath config) \<in> set files)
           \<and> (\<forall>g\<in>set (groupThemes ths).
                 namespace_file (run_context sdk ext config ctx) g \<in> set files
                 \<and> (\<forall>lt. lightTheme g = Some lt \<longrightarrow>
                       set (color_files (run_context sdk ext config ctx) g lt) \<subseteq> set files))"
proof -
  let ?rc = "run_context sdk ext config ctx"
  from selected_themes_of_export[OF assms] obtain ths where
    ths: "selected_themes sdk ctx = Inr ths" by blast
  from Pulsar_export_Inr[OF ths, of ext config gl] assms obtain lines where
    f: "files = getFile (log_all (getLogger (resolveRootPath config) gl) lines)
                # root_files ext config @ fst (exportThemeGroups ?rc (groupThemes ths))"
    by auto
  have f': "files = getFile (log_all (getLogger (resolveRootPath config) gl) lines)
                # root_files ext config
                @ concat (map (\<lambda>g. fst (exportThemeGroup ?rc g)) (groupThemes ths))"
    using f by (simp only: exportThemeGroups_files)
  have l: "getFile (log_all (getLogger (resolveRootPath config) gl) lines) \<in> set files"
    unfolding f by simp
  have r: "generateRootCatalog config \<longrightarrow>
             createCatalogRootFile ext (resolveRootPath config) \<in> set files"
    unfolding f by (simp add: root_files_def)
  have g: "\<forall>g\<in>set (groupThemes ths).
             namespace_file ?rc g \<in> set files
             \<and> (\<forall>lt. lightTheme g = Some lt \<longrightarrow> set (color_files ?rc g lt) \<subseteq> set files)"
  proof (intro ballI conjI allI impI)
    fix g assume g: "g \<in> set (groupThemes ths)"
    have sub: "set (fst (exportThemeGroup ?rc g)) \<subseteq> set files"
      using group_files_in_export[OF g, of ?rc] unfolding f by auto
    have "namespace_file ?rc g \<in> set (fst (exportThemeGroup ?rc g))"
      by (cases "lightTheme g")
         (simp_all add: exportThemeGroup_no_light exportThemeGroup_light namespace_file_def)
    then show "namespace_file ?rc g \<in> set files" using sub by blast
    fix lt assume "lightTheme g = Some lt"
    then have "set (color_files ?rc g lt) \<subseteq> set (fst (exportThemeGroup ?rc g))"
      by (auto simp: exportThemeGroup_light color_files_def colors_path_def)
    then show "set (color_files ?rc g lt) \<subseteq> set files" using sub by blast
  qed
  from ths f' l r g show ?thesis by blast
qed

text \<open>The statement of C2 at the sample run with the ids 1, 5 and v-3.\<close>

theorem export_returns_all_files_witness:
  "\<exists>files. Pulsar_export sample_sdk sample_ext sample_config sample_selection None = Inr files
     \<and> file_name (hd files) = ''log.txt''
     \<and> createCatalogRootFile sample_ext ''Colors.xcassets'' \<in> set files
     \<and> both_themes \<in> set (groupThemes [theme ''1'' ''Brand Light'', theme ''5'' ''Brand Dark'',
            theme ''3'' '' brand-DARK ''])
     \<and> lightTheme both_themes = Some (theme ''1'' ''Brand Light'')
     \<and> namespace_file (run_context sample_sdk sample_ext sample_config sample_selection)
           both_themes \<in> set files
     \<and> namespace_file (run_context sample_sdk sample_ext sample_config sample_selection)
           dark_only \<in> set files
     \<and> set [createTextFile ''./Colors.xcassets/Brand/t1.colorset'' ''Contents.json''
                 ''#111@1 dark #111@5'',
              createTextFile ''./Colors.xcassets/Brand/t4.colorset'' ''Contents.json'' ''#444'',
              createTextFile ''./Colors.xcassets/Brand/t5.colorset'' ''Contents.json'' ''#555@1'']
           \<subseteq> set files"
proof -
  let ?rc = "run_context sample_sdk sample_ext sample_config sample_selection"
  let ?ths = "[theme ''1'' ''Brand Light'', theme ''5'' ''Brand Dark'', theme ''3'' '' brand-DARK '']"
  from Pulsar_export_Inr[OF sample_selected, of sample_ext sample_config None]
  obtain files where f: "Pulsar_export sample_sdk sample_ext sample_config sample_selection None
      = Inr files" by blast
  from export_returns_all_files[OF f] obtain ths lines where
    t: "selected_themes sample_sdk sample_selection = Inr ths"
    and l: "files = getFile (log_all (getLogger (resolveRootPath sample_config) None) lines)
                # root_files sample_ext sample_config
                @ concat (map (\<lambda>g. fst (exportThemeGroup ?rc g)) (groupThemes ths))"
    and r: "generateRootCatalog sample_config \<longrightarrow>
                 createCatalogRootFile sample_ext (resolveRootPath sample_config) \<in> set files"
    and g: "\<forall>g\<in>set (groupThemes ths).
                 namespace_file ?rc g \<in> set files
                 \<and> (\<forall>lt. lightTheme g = Some lt \<longrightarrow> set (color_files ?rc g lt) \<subseteq> set files)"
    by blast
  have ths: "ths = ?ths" using t by (simp add: sample_selected)
  have "file_name (getFile (getLogger (resolveRootPath sample_config) None)) = ''log.txt''"
    by (simp add: getLogger_def new_Logger_def getFile_def createTextFile_def)
  then have n: "file_name (hd files) = ''log.txt''"
    unfolding l by (simp add: log_all_path)
  have c: "createCatalogRootFile sample_ext ''Colors.xcassets'' \<in> set files"
    using r sample_generates_root by (simp add: sample_root)
  have m: "both_themes \<in> set (groupThemes ?ths)" "dark_only \<in> set (groupThemes ?ths)"
    by (simp_all add: sample_selected_groups)
  have lt: "lightTheme both_themes = Some (theme ''1'' ''Brand Light'')"
    by (simp add: both_themes_def)
  have b: "namespace_file ?rc both_themes \<in> set files"
    "set (color_files ?rc both_themes (theme ''1'' ''Brand Light'')) \<subseteq> set files"
    using g m(1) lt unfolding ths by blast+
  have d: "namespace_file ?rc dark_only \<in> set files"
    using g m(2) unfolding ths by blast
  from f n c m(1) lt b(1) d b(2)[unfolded sample_color_files] show ?thesis by blast
qed

text \<open>
  Claim C3. For a non-empty selection of theme ids: when every id matches a fetched theme, the
  ids resolve, in order, to fetched themes that match them, and the run returns its list of
  files; when some id matches no fetched theme, the run ends with the error that names
  such an id and returns no list.
\<close>

theorem export_theme_lookup:
  assumes "themeIds ctx = Some ids" "ids \<noteq> []"
  shows "((\<forall>i\<in>set ids. \<exists>t\<in>set (getTokenThemes sdk). theme_matches i t) \<longrightarrow>
            (\<exists>ths files. resolveThemes (getTokenThemes sdk) ids = Inr ths
               \<and> list_all2 (\<lambda>i t. t \<in> set (getTokenThemes sdk) \<and> theme_matches i t) ids ths
               \<and> Pulsar_export sdk ext config ctx gl = Inr files))
       \<and> ((\<exists>i\<in>set ids. \<forall>t\<in>set (getTokenThemes sdk). \<not> theme_matches i t) \<longrightarrow>
            (\<exists>i\<in>set ids. (\<forall>t\<in>set (getTokenThemes sdk). \<not> theme_matches i t)
               \<and> Pulsar_export sdk ext config ctx gl
                   = Inl (Error (''Unable to find theme '' @ i))))"
proof (intro conjI impI)
  assume "\<forall>i\<in>set ids. \<exists>t\<in>set (getTokenThemes sdk). theme_matches i t"
  then obtain ths where ths: "resolveThemes (getTokenThemes sdk) ids = Inr ths"
    using resolveThemes_all_found by blast
  then have s: "selected_themes sdk ctx = Inr ths"
    using assms by (simp add: selected_themes_def)
  from Pulsar_export_Inr[OF s] obtain files where
    "Pulsar_export sdk ext config ctx gl = Inr files" by blast
  with ths resolveThemes_Inr[OF ths]
  show "\<exists>ths files. resolveThemes (getTokenThemes sdk) ids = Inr ths
               \<and> list_all2 (\<lambda>i t. t \<in> set (getTokenThemes sdk) \<and> theme_matches i t) ids ths
               \<and> Pulsar_export sdk ext config ctx gl = Inr files"
    by blast
next
  assume "\<exists>i\<in>set ids. \<forall>t\<in>set (getTokenThemes sdk). \<not> theme_matches i t"
  from resolveThemes_missing[OF this] obtain i where i: "i \<in> set ids"
    "\<forall>t\<in>set (getTokenThemes sdk). \<not> theme_matches i t"
    "resolveThemes (getTokenThemes sdk) ids = Inl (Error (''Unable to find theme '' @ i))"
    by blast
  then have "selected_themes sdk ctx = Inl (Error (''Unable to find theme '' @ i))"
    using assms by (simp add: selected_themes_def)
  from Pulsar_export_Inl[OF this] i(1,2)
  show "\<exists>i\<in>set ids. (\<forall>t\<in>set (getTokenThemes sdk). \<not> theme_matches i t)
               \<and> Pulsar_export sdk ext config ctx gl
                   = Inl (Error (''Unable to find theme '' @ i))"
    by blast
qed

text \<open>The statement of C3 at the ids 1, 5 and v-3, which all match, and at 1 and 7.\<close>

theorem export_theme_lookup_witness:
  "themeIds sample_selection = Some [''1'', ''5'', ''v-3'']
   \<and> (\<exists>ths files. resolveThemes (getTokenThemes sample_sdk) [''1'', ''5'', ''v-3''] = Inr ths
         \<and> ths = [theme ''1'' ''Brand Light'', theme ''5'' ''Brand Dark'',
                   theme ''3'' '' brand-DARK '']
         \<and> Pulsar_export sample_sdk sample_ext sample_config sample_selection None = Inr files)
   \<and> themeIds (sample_ctx (Some [''1'', ''7''])) = Some [''1'', ''7'']
   \<and> Pulsar_export sample_sdk sample_ext sample_config (sample_ctx (Some [''1'', ''7''])) None
       = Inl (Error ''Unable to find theme 7'')"
proof -
  have i1: "themeIds sample_selection = Some [''1'', ''5'', ''v-3'']"
    by (simp add: sample_selection_def sample_ctx_def)
  have a1: "\<forall>i\<in>set [''1'', ''5'', ''v-3''].
              \<exists>t\<in>set (getTokenThemes sample_sdk). theme_matches i t"
    by code_simp
  from export_theme_lookup[OF i1, of sample_sdk sample_ext sample_config None, THEN conjunct1]
    a1
  obtain ths files where
    r: "resolveThemes (getTokenThemes sample_sdk) [''1'', ''5'', ''v-3''] = Inr ths"
    and f: "Pulsar_export sample_sdk sample_ext sample_config sample_selection None = Inr files"
    by auto
  have "resolveThemes (getTokenThemes sample_sdk) [''1'', ''5'', ''v-3'']
          = Inr [theme ''1'' ''Brand Light'', theme ''5'' ''Brand Dark'',
                 theme ''3'' '' brand-DARK '']"
    by code_simp
  with r have t: "ths = [theme ''1'' ''Brand Light'', theme ''5'' ''Brand Dark'',
                   theme ''3'' '' brand-DARK '']" by simp
  have i2: "themeIds (sample_ctx (Some [''1'', ''7''])) = Some [''1'', ''7'']"
    by (simp add: sample_ctx_def)
  have a2: "\<exists>i\<in>set [''1'', ''7''].
              \<forall>t\<in>set (getTokenThemes sample_sdk). \<not> theme_matches i t"
    by code_simp
  have k: "\<exists>t\<in>set (getTokenThemes sample_sdk). theme_matches ''1'' t" by code_simp
  from export_theme_lookup[OF i2, of sample_sdk sample_ext sample_config None, THEN conjunct2]
    a2
  obtain i where i: "i \<in> set [''1'', ''7'']"
    "\<forall>t\<in>set (getTokenThemes sample_sdk). \<not> theme_matches i t"
    "Pulsar_export sample_sdk sample_ext sample_config (sample_ctx (Some [''1'', ''7''])) None
       = Inl (Error (''Unable to find theme '' @ i))"
    by auto
  from i(1,2) k have "i = ''7''" by auto
  with i(3) have e: "Pulsar_export sample_sdk sample_ext sample_config
      (sample_ctx (Some [''1'', ''7''])) None = Inl (Error ''Unable to find theme 7'')"
    by simp
  from i1 r t f i2 e show ?thesis by blast
qed

text \<open>
  Claim C5. For a theme group with the light theme \<open>lt\<close>, the files are the namespace marker
  and, for the colour tokens that passed the filter, in order, what the per-token file
  maker gives for the base value \<open>emitted_base\<close> under the valuation of \<open>lt\<close> and the variants
  \<open>emitted_variants\<close> under the valuation of the group's dark theme. The base value is the
  token's value under the valuation when the valuation has the token's id (the last token
  with that id) and the token itself otherwise; there is one dark variant, the token's value
  under the dark valuation, when that valuation has the id, and none otherwise; a group
  without a dark theme has an empty dark valuation and therefore no variant for any token.
\<close>

theorem emitted_token_values:
  "(lightTheme g = Some lt \<longrightarrow>
      fst (exportThemeGroup runtime g) = namespace_file runtime g # color_files runtime g lt)
   \<and> color_files runtime g lt
       = emit_each
           (\<lambda>b vs tr. createPerTokenFile (ec_ext runtime) b (ec_tokenGroups runtime)
               (colors_path runtime g) vs tr
               (case folderNameStyle (ec_config runtime) of Some s \<Rightarrow> s | None \<Rightarrow> kebabCase))
           (map (\<lambda>token.
               (emitted_base (computeTokensForTheme (ec_sdk runtime) (ec_tokens runtime) (Some lt))
                  token,
                emitted_variants
                  (computeTokensForTheme (ec_sdk runtime) (ec_tokens runtime) (darkTheme g))
                  token))
              (ec_colorTokens runtime))
           (newTokenNameTracker (ec_ext runtime))
   \<and> (token_id token \<in> token_id ` set B \<longrightarrow>
         emitted_base B token = last (filter (\<lambda>t. token_id t = token_id token) B)
         \<and> emitted_base B token \<in> set B \<and> token_id (emitted_base B token) = token_id token)
   \<and> (token_id token \<notin> token_id ` set B \<longrightarrow> emitted_base B token = token)
   \<and> (token_id token \<in> token_id ` set D \<longrightarrow>
         emitted_variants D token = [last (filter (\<lambda>t. token_id t = token_id token) D)]
         \<and> last (filter (\<lambda>t. token_id t = token_id token) D) \<in> set D
         \<and> token_id (last (filter (\<lambda>t. token_id t = token_id token) D)) = token_id token)
   \<and> (token_id token \<notin> token_id ` set D \<longrightarrow> emitted_variants D token = [])
   \<and> (darkTheme g = None \<longrightarrow>
         emitted_variants
           (computeTokensForTheme (ec_sdk runtime) (ec_tokens runtime) (darkTheme g)) token = [])"
proof (intro conjI)
  show "lightTheme g = Some lt \<longrightarrow>
      fst (exportThemeGroup runtime g) = namespace_file runtime g # color_files runtime g lt"
    by (simp add: exportThemeGroup_light namespace_file_def color_files_def colors_path_def)
  show "color_files runtime g lt
       = emit_each
           (\<lambda>b vs tr. createPerTokenFile (ec_ext runtime) b (ec_tokenGroups runtime)
               (colors_path runtime g) vs tr
               (case folderNameStyle (ec_config runtime) of Some s \<Rightarrow> s | None \<Rightarrow> kebabCase))
           (map (\<lambda>token.
               (emitted_base (computeTokensForTheme (ec_sdk runtime) (ec_tokens runtime) (Some lt))
                  token,
                emitted_variants
                  (computeTokensForTheme (ec_sdk runtime) (ec_tokens runtime) (darkTheme g))
                  token))
              (ec_colorTokens runtime))
           (newTokenNameTracker (ec_ext runtime))"
    unfolding color_files_def createThemeColors_files
    by (simp add: computeTokensForTheme_def)
  show "token_id token \<in> token_id ` set B \<longrightarrow>
         emitted_base B token = last (filter (\<lambda>t. token_id t = token_id token) B)
         \<and> emitted_base B token \<in> set B \<and> token_id (emitted_base B token) = token_id token"
    using emitted_base_cases[of token B] by blast
  show "token_id token \<notin> token_id ` set B \<longrightarrow> emitted_base B token = token"
    using emitted_base_cases[of token B] by blast
  show "token_id token \<in> token_id ` set D \<longrightarrow>
         emitted_variants D token = [last (filter (\<lambda>t. token_id t = token_id token) D)]
         \<and> last (filter (\<lambda>t. token_id t = token_id token) D) \<in> set D
         \<and> token_id (last (filter (\<lambda>t. token_id t = token_id token) D)) = token_id token"
    using emitted_variants_cases[of token D] by blast
  show "token_id token \<notin> token_id ` set D \<longrightarrow> emitted_variants D token = []"
    using emitted_variants_cases[of token D] by blast
  show "darkTheme g = None \<longrightarrow>
         emitted_variants
           (computeTokensForTheme (ec_sdk runtime) (ec_tokens runtime) (darkTheme g)) token = []"
    by (simp add: computeTokensForTheme_def emitted_variants_def value_under_def last_option_def)
qed

text \<open>
  The statement of C5 at the sample run: \<open>t1\<close> has a value under both themes, \<open>t4\<close> under
  neither.
\<close>

theorem emitted_token_values_witness:
  "lightTheme both_themes = Some (theme ''1'' ''Brand Light'')
   \<and> fst (exportThemeGroup (run_context sample_sdk sample_ext sample_config sample_selection)
            both_themes)
       = namespace_file (run_context sample_sdk sample_ext sample_config sample_selection)
           both_themes
         # [createTextFile ''./Colors.xcassets/Brand/t1.colorset'' ''Contents.json''
              ''#111@1 dark #111@5'',
            createTextFile ''./Colors.xcassets/Brand/t4.colorset'' ''Contents.json'' ''#444'',
            createTextFile ''./Colors.xcassets/Brand/t5.colorset'' ''Contents.json'' ''#555@1'']
   \<and> token_id (sample_token 0) \<in> token_id ` set sample_light_values
   \<and> emitted_base sample_light_values (sample_token 0)
       = (sample_token 0)\<lparr>token_value := ''#111@1''\<rparr>
   \<and> token_id (sample_token 3) \<notin> token_id ` set sample_light_values
   \<and> emitted_base sample_light_values (sample_token 3) = sample_token 3
   \<and> token_id (sample_token 0) \<in> token_id ` set sample_dark_values
   \<and> emitted_variants sample_dark_values (sample_token 0)
       = [(sample_token 0)\<lparr>token_value := ''#111@5''\<rparr>]
   \<and> token_id (sample_token 3) \<notin> token_id ` set sample_dark_values
   \<and> emitted_variants sample_dark_values (sample_token 3) = []
   \<and> darkTheme light_only = None
   \<and> emitted_variants (computeTokensForTheme sample_sdk sample_tokens (darkTheme light_only))
        (sample_token 0) = []"
proof -
  let ?rc = "run_context sample_sdk sample_ext sample_config sample_selection"
  note T = emitted_token_values[where runtime = ?rc and g = both_themes
      and lt = "theme ''1'' ''Brand Light''"]
  have lt: "lightTheme both_themes = Some (theme ''1'' ''Brand Light'')"
    by (simp add: both_themes_def)
  have a: "fst (exportThemeGroup ?rc both_themes)
       = namespace_file ?rc both_themes
         # [createTextFile ''./Colors.xcassets/Brand/t1.colorset'' ''Contents.json''
              ''#111@1 dark #111@5'',
            createTextFile ''./Colors.xcassets/Brand/t4.colorset'' ''Contents.json'' ''#444'',
            createTextFile ''./Colors.xcassets/Brand/t5.colorset'' ''Contents.json'' ''#555@1'']"
    using T[THEN conjunct1] lt by (simp add: sample_color_files)
  note B0 = emitted_token_values[where token = "sample_token 0" and B = sample_light_values
      and D = sample_dark_values and g = light_only and runtime = ?rc]
  note B3 = emitted_token_values[where token = "sample_token 3" and B = sample_light_values
      and D = sample_dark_values and g = light_only and runtime = ?rc]
  have b0: "emitted_base sample_light_values (sample_token 0)
       = (sample_token 0)\<lparr>token_value := ''#111@1''\<rparr>"
    using B0[THEN conjunct2, THEN conjunct2, THEN conjunct1] sample_value_facts(1,5) by simp
  have b3: "emitted_base sample_light_values (sample_token 3) = sample_token 3"
    using B3[THEN conjunct2, THEN conjunct2, THEN conjunct2, THEN conjunct1]
      sample_value_facts(2) by simp
  have d0: "emitted_variants sample_dark_values (sample_token 0)
       = [(sample_token 0)\<lparr>token_value := ''#111@5''\<rparr>]"
    using B0[THEN conjunct2, THEN conjunct2, THEN conjunct2, THEN conjunct2, THEN conjunct1]
      sample_value_facts(3,6) by simp
  have d3: "emitted_variants sample_dark_values (sample_token 3) = []"
    using B3[THEN conjunct2, THEN conjunct2, THEN conjunct2, THEN conjunct2, THEN conjunct2,
        THEN conjunct1] sample_value_facts(4) by simp
  have dn: "darkTheme light_only = None" by (simp add: light_only_def)
  have n: "emitted_variants (computeTokensForTheme sample_sdk sample_tokens (darkTheme light_only))
        (sample_token 0) = []"
    using B0[THEN conjunct2, THEN conjunct2, THEN conjunct2, THEN conjunct2, THEN conjunct2,
        THEN conjunct2] dn
    by (simp add: run_context_def sample_sdk_def)
  from lt a sample_value_facts(1) b0 sample_value_facts(2) b3 sample_value_facts(3) d0
    sample_value_facts(4) d3 dn n
  show ?thesis by blast
qed

text \<open>
  Claim C6. With the exclusion flag set and a non-empty list, \<open>filterExcludedCollections\<close>
  keeps, in order, exactly the tokens that are not in an excluded collection: a token is
  dropped exactly when its owning collection resolves (the first collection whose
  \<^verbatim>\<open>persistentId\<close> is the token's \<^verbatim>\<open>collectionId\<close>; the only one when the ids are
  distinct) and the collection's name, lower-cased and trimmed, is among the configured
  names, lower-cased and trimmed. A token whose collection does not resolve is kept. With
  the flag unset or the list empty every token is kept. The tokens kept are the colour
  tokens the theme groups of a run get, so a dropped token reaches no per-token file.
\<close>

theorem excluded_collections_filter:
  "(excludeCollectionsInPipelines config \<and> excludedCollections config \<noteq> [] \<longrightarrow>
      fst (filterExcludedCollections config colorTokens tokenCollections)
        = filter (\<lambda>token. \<not> in_excluded_collection config tokenCollections token) colorTokens
      \<and> (\<forall>token\<in>set colorTokens. owning_collection tokenCollections token = None \<longrightarrow>
            token \<in> set (fst (filterExcludedCollections config colorTokens tokenCollections))))
   \<and> (\<not> excludeCollectionsInPipelines config \<or> excludedCollections config = [] \<longrightarrow>
        fst (filterExcludedCollections config colorTokens tokenCollections) = colorTokens)
   \<and> (in_excluded_collection config tokenCollections token
        \<longleftrightarrow> (\<exists>c. owning_collection tokenCollections token = Some c
               \<and> trim (toLowerCase (collection_name c))
                   \<in> set (map (\<lambda>nm. trim (toLowerCase nm)) (excludedCollections config))))
   \<and> (owning_collection tokenCollections token = None
        \<longleftrightarrow> (\<forall>c\<in>set tokenCollections. Some (persistentId c) \<noteq> collectionId token))
   \<and> (\<forall>c. owning_collection tokenCollections token = Some c \<longrightarrow>
          c \<in> set tokenCollections \<and> Some (persistentId c) = collectionId token)
   \<and> (distinct (map persistentId tokenCollections) \<longrightarrow>
        (\<forall>c\<in>set tokenCollections. Some (persistentId c) = collectionId token \<longrightarrow>
           owning_collection tokenCollections token = Some c))
   \<and> ec_colorTokens (run_context sdk ext config ctx)
       = fst (filterExcludedCollections config
               (filter (\<lambda>t. tokenType t = Color) (getTokens sdk)) (getTokenCollections sdk))"
proof (intro conjI impI ballI allI)
  assume a: "excludeCollectionsInPipelines config \<and> excludedCollections config \<noteq> []"
  have p: "(\<lambda>token. case find (\<lambda>c. Some (persistentId c) = collectionId token) tokenCollections of
               None \<Rightarrow> True
             | Some tokenCollection \<Rightarrow> trim (toLowerCase (collection_name tokenCollection))
                 \<notin> set (map (\<lambda>nm. trim (toLowerCase nm)) (excludedCollections config)))
         = (\<lambda>token. \<not> in_excluded_collection config tokenCollections token)"
    by (rule ext)
       (simp add: in_excluded_collection_def owning_collection_def excluded_names_def
          split: option.splits)
  show e: "fst (filterExcludedCollections config colorTokens tokenCollections)
        = filter (\<lambda>token. \<not> in_excluded_collection config tokenCollections token) colorTokens"
    using a unfolding filterExcludedCollections_def Let_def p[symmetric] by simp
  fix tk assume "tk \<in> set colorTokens" "owning_collection tokenCollections tk = None"
  then show "tk \<in> set (fst (filterExcludedCollections config colorTokens tokenCollections))"
    unfolding e by (simp add: in_excluded_collection_def)
next
  assume "\<not> excludeCollectionsInPipelines config \<or> excludedCollections config = []"
  then show "fst (filterExcludedCollections config colorTokens tokenCollections) = colorTokens"
    by (auto simp: filterExcludedCollections_def)
next
  show "in_excluded_collection config tokenCollections token
        \<longleftrightarrow> (\<exists>c. owning_collection tokenCollections token = Some c
               \<and> trim (toLowerCase (collection_name c))
                   \<in> set (map (\<lambda>nm. trim (toLowerCase nm)) (excludedCollections config)))"
    by (simp add: in_excluded_collection_def excluded_names_def split: option.splits)
next
  show "owning_collection tokenCollections token = None
        \<longleftrightarrow> (\<forall>c\<in>set tokenCollections. Some (persistentId c) \<noteq> collectionId token)"
    by (rule owning_collection_None)
next
  fix c assume "owning_collection tokenCollections token = Some c"
  then show "c \<in> set tokenCollections" "Some (persistentId c) = collectionId token"
    using owning_collection_Some by blast+
next
  fix c assume "distinct (map persistentId tokenCollections)" "c \<in> set tokenCollections"
    "Some (persistentId c) = collectionId token"
  then show "owning_collection tokenCollections token = Some c"
    by (rule owning_collection_distinct)
next
  show "ec_colorTokens (run_context sdk ext config ctx)
       = fst (filterExcludedCollections config
               (filter (\<lambda>t. tokenType t = Color) (getTokens sdk)) (getTokenCollections sdk))"
    by (simp add: run_context_def selectColorTokens_def)
qed

text \<open>
  The statement of C6 at the sample run: \<open>t2\<close> is in the excluded collection, \<open>t5\<close> names a
  collection that does not exist.
\<close>

theorem excluded_collections_filter_witness:
  "excludeCollectionsInPipelines sample_config \<and> excludedCollections sample_config \<noteq> []
   \<and> sample_color_tokens = [sample_token 0, sample_token 1, sample_token 3, sample_token 4]
   \<and> fst (filterExcludedCollections sample_config sample_color_tokens sample_collections)
       = [sample_token 0, sample_token 3, sample_token 4]
   \<and> owning_collection sample_collections (sample_token 1)
       = Some \<lparr>persistentId = ''c2'', collection_name = '' Internal ''\<rparr>
   \<and> trim (toLowerCase '' Internal '') \<in> excluded_names sample_config
   \<and> in_excluded_collection sample_config sample_collections (sample_token 1)
   \<and> sample_token 4 \<in> set sample_color_tokens
   \<and> owning_collection sample_collections (sample_token 4) = None
   \<and> sample_token 4
       \<in> set (fst (filterExcludedCollections sample_config sample_color_tokens sample_collections))
   \<and> \<not> excludeCollectionsInPipelines (sample_config\<lparr>excludeCollectionsInPipelines := False\<rparr>)
   \<and> fst (filterExcludedCollections (sample_config\<lparr>excludeCollectionsInPipelines := False\<rparr>)
           sample_color_tokens sample_collections) = sample_color_tokens
   \<and> distinct (map persistentId sample_collections)
   \<and> ec_colorTokens (run_context sample_sdk sample_ext sample_config sample_selection)
       = [sample_token 0, sample_token 3, sample_token 4]"
proof -
  note T = excluded_collections_filter[where config = sample_config
      and colorTokens = sample_color_tokens and tokenCollections = sample_collections
      and token = "sample_token 4" and sdk = sample_sdk and ext = sample_ext
      and ctx = sample_selection]
  note F = sample_exclusion_facts
  have r: "fst (filterExcludedCollections sample_config sample_color_tokens sample_collections)
       = [sample_token 0, sample_token 3, sample_token 4]"
    using T[THEN conjunct1] F(1) by (simp add: F(3))
  have o: "owning_collection sample_collections (sample_token 4) = None"
    using T[THEN conjunct2, THEN conjunct2, THEN conjunct2, THEN conjunct1] F(7) by simp
  have x: "in_excluded_collection sample_config sample_collections (sample_token 1)"
    using excluded_collections_filter[where config = sample_config
        and tokenCollections = sample_collections and token = "sample_token 1",
        THEN conjunct2, THEN conjunct2, THEN conjunct1] F(4) F(5)
    by (simp add: excluded_names_def)
  have k: "sample_token 4
       \<in> set (fst (filterExcludedCollections sample_config sample_color_tokens sample_collections))"
    using T[THEN conjunct1] F(1) F(6) o by blast
  have nf: "\<not> excludeCollectionsInPipelines (sample_config\<lparr>excludeCollectionsInPipelines := False\<rparr>)"
    by simp
  have u: "fst (filterExcludedCollections (sample_config\<lparr>excludeCollectionsInPipelines := False\<rparr>)
           sample_color_tokens sample_collections) = sample_color_tokens"
    using excluded_collections_filter[where
        config = "sample_config\<lparr>excludeCollectionsInPipelines := False\<rparr>"
        and colorTokens = sample_color_tokens and tokenCollections = sample_collections,
        THEN conjunct2, THEN conjunct1] nf by blast
  have e: "ec_colorTokens (run_context sample_sdk sample_ext sample_config sample_selection)
       = [sample_token 0, sample_token 3, sample_token 4]"
    using T[THEN conjunct2, THEN conjunct2, THEN conjunct2, THEN conjunct2, THEN conjunct2,
        THEN conjunct2] r
    by (simp add: sample_sdk_def sample_color_tokens_def)
  from F(1) F(2) r F(4) F(5) x F(6) o k nf u F(8) e show ?thesis by blast
qed

text \<open>
  Claim C7. A theme group with no light theme gives exactly one file: \<^verbatim>\<open>Contents.json\<close>
  in the folder of the group's code-safe name, whose content is the serialised object with
  \<^verbatim>\<open>info\<close> (version 1, author xcode) and \<^verbatim>\<open>properties\<close> (provides-namespace true). There
  are no per-token files, and the last line logged says that colour generation was skipped.
\<close>

theorem group_without_light_theme:
  assumes "lightTheme g = None"
  shows "fst (exportThemeGroup runtime g)
         = [\<lparr>path = (if ec_rootPath runtime \<noteq> []
                      then ''./'' @ ec_rootPath runtime @ ''/''
                             @ codeSafeVariableName (ec_ext runtime) (name g) pascalCase
                      else ''./'' @ codeSafeVariableName (ec_ext runtime) (name g) pascalCase),
              file_name = ''Contents.json'',
              content = JSON_stringify
                (JObject
                   [(''info'', JObject [(''version'', JNumber 1), (''author'', JString ''xcode'')]),
                    (''properties'', JObject [(''provides-namespace'', JBool True)])])\<rparr>]
       \<and> JSON_stringify
            (JObject
               [(''info'', JObject [(''version'', JNumber 1), (''author'', JString ''xcode'')]),
                (''properties'', JObject [(''provides-namespace'', JBool True)])])
          = namespace_marker_text
       \<and> length (fst (exportThemeGroup runtime g)) = 1
       \<and> last (snd (exportThemeGroup runtime g))
          = ''Skipped color generation for '' @ name g
              @ '' because no light theme variant was provided.''"
proof (intro conjI)
  show "fst (exportThemeGroup runtime g)
         = [\<lparr>path = (if ec_rootPath runtime \<noteq> []
                      then ''./'' @ ec_rootPath runtime @ ''/''
                             @ codeSafeVariableName (ec_ext runtime) (name g) pascalCase
                      else ''./'' @ codeSafeVariableName (ec_ext runtime) (name g) pascalCase),
              file_name = ''Contents.json'',
              content = JSON_stringify
                (JObject
                   [(''info'', JObject [(''version'', JNumber 1), (''author'', JString ''xcode'')]),
                    (''properties'', JObject [(''provides-namespace'', JBool True)])])\<rparr>]"
    unfolding exportThemeGroup_no_light[OF assms]
    by (simp only: createNameSpaceFolder_def Let_def createTextFile_def)
  show "JSON_stringify
            (JObject
               [(''info'', JObject [(''version'', JNumber 1), (''author'', JString ''xcode'')]),
                (''properties'', JObject [(''provides-namespace'', JBool True)])])
          = namespace_marker_text"
    by (rule stringify_marker)
  show "length (fst (exportThemeGroup runtime g)) = 1"
    by (simp add: exportThemeGroup_no_light[OF assms])
  show "last (snd (exportThemeGroup runtime g))
          = ''Skipped color generation for '' @ name g
              @ '' because no light theme variant was provided.''"
    using assms by (simp add: exportThemeGroup_def Let_def)
qed

text \<open>The statement of C7 at the group of the sample run that has only a dark theme.\<close>

theorem group_without_light_theme_witness:
  "lightTheme dark_only = None
   \<and> darkTheme dark_only = Some (theme ''3'' '' brand-DARK '')
   \<and> fst (exportThemeGroup (run_context sample_sdk sample_ext sample_config sample_selection)
            dark_only)
       = [\<lparr>path = ''./Colors.xcassets/brand-DARK'', file_name = ''Contents.json'',
            content = namespace_marker_text\<rparr>]"
proof -
  let ?rc = "run_context sample_sdk sample_ext sample_config sample_selection"
  have n: "lightTheme dark_only = None" "darkTheme dark_only = Some (theme ''3'' '' brand-DARK '')"
    by (simp_all add: dark_only_def)
  have p: "(if ec_rootPath ?rc \<noteq> []
            then ''./'' @ ec_rootPath ?rc @ ''/''
                   @ codeSafeVariableName (ec_ext ?rc) (name dark_only) pascalCase
            else ''./'' @ codeSafeVariableName (ec_ext ?rc) (name dark_only) pascalCase)
           = ''./Colors.xcassets/brand-DARK''"
    by code_simp
  note T = group_without_light_theme[OF n(1), of ?rc]
  have "fst (exportThemeGroup ?rc dark_only)
       = [\<lparr>path = ''./Colors.xcassets/brand-DARK'', file_name = ''Contents.json'',
            content = namespace_marker_text\<rparr>]"
    using T[THEN conjunct1] T[THEN conjunct2, THEN conjunct1] by (simp only: p)
  with n show ?thesis by blast
qed

end
